theory Spec2Isabelle
  imports Main "HOL-Library.Finite_Map" "HOL-Library.Sublist"
begin

section \<open>The OAuth credential subsystem of dango\<close>

subsection \<open>Naming: \<open>OAuthStorage._sanitize_name\<close>\<close>

text \<open>
  Python strings are modelled as \<^typ>\<open>string\<close>. The three regular-expression steps of
  \<open>_sanitize_name\<close> are written out: \<open>re.sub(r'[^a-zA-Z0-9_-]', '_', name)\<close> is
  \<open>sub_invalid\<close>, \<open>re.sub(r'__+', '_', s)\<close> is \<open>sub_runs\<close> (leftmost match, greedy: a
  whole run of two or more underscores becomes one), \<open>s.strip('_')\<close> is \<open>strip_us\<close> and
  \<open>s.lower()\<close> is \<open>lower\<close>, which at that point sees ASCII characters only.
\<close>

definition in_class :: "char \<Rightarrow> bool" where
  "in_class c = (let n = (of_char c :: nat) in
     (97 \<le> n \<and> n \<le> 122) \<or> (65 \<le> n \<and> n \<le> 90) \<or> (48 \<le> n \<and> n \<le> 57)
     \<or> c = CHR ''_'' \<or> c = CHR ''-'')"

definition sub_invalid :: "string \<Rightarrow> string" where
  "sub_invalid s = map (\<lambda>c. if in_class c then c else CHR ''_'') s"

function sub_runs :: "string \<Rightarrow> string" where
  "sub_runs [] = []"
| "sub_runs (c # cs) =
     (if c = CHR ''_'' \<and> cs \<noteq> [] \<and> hd cs = CHR ''_''
      then CHR ''_'' # sub_runs (dropWhile (\<lambda>x. x = CHR ''_'') cs)
      else c # sub_runs cs)"
  by pat_completeness auto
termination
  by (relation "measure length") (auto simp: length_dropWhile_le less_Suc_eq_le)

definition strip_us :: "string \<Rightarrow> string" where
  "strip_us s = rev (dropWhile (\<lambda>x. x = CHR ''_'') (rev (dropWhile (\<lambda>x. x = CHR ''_'') s)))"

definition lower_char :: "char \<Rightarrow> char" where
  "lower_char c = (let n = (of_char c :: nat) in
     if 65 \<le> n \<and> n \<le> 90 then char_of (n + 32) else c)"

definition lower :: "string \<Rightarrow> string" where
  "lower s = map lower_char s"

definition sanitize_name :: "string \<Rightarrow> string" where
  "sanitize_name name = lower (strip_us (sub_runs (sub_invalid name)))"

subsection \<open>Values, timestamps and exceptions\<close>

text \<open>
  The values that \<open>toml.load\<close> produces and \<open>toml.dump\<close> accepts: strings, integers,
  booleans, datetimes and tables (Python \<open>dict\<close>s, compared by their entries, not by
  insertion order). Floats and arrays are left out. A \<open>datetime\<close> is its number of
  microseconds since the epoch; Python's \<open>None\<close> is \<open>option\<close>'s \<open>None\<close>.
\<close>

datatype tval =
    TStr string
  | TInt int
  | TBool bool
  | TDatetime int
  | TTable "(string, tval) fmap"

type_synonym table = "(string, tval) fmap"

type_synonym datetime = int

text \<open>Python's truth value of an object, as used by \<open>if x:\<close>.\<close>

fun truthy :: "tval \<Rightarrow> bool" where
  "truthy (TStr s) = (s \<noteq> [])"
| "truthy (TInt n) = (n \<noteq> 0)"
| "truthy (TBool b) = b"
| "truthy (TDatetime t) = True"
| "truthy (TTable m) = (m \<noteq> fmempty)"

datatype py_exn =
    TypeError
  | ValueError
  | KeyError
  | AttributeError
  | FileNotFoundError
  | TomlDecodeError

definition bind_exn :: "py_exn + 'a \<Rightarrow> ('a \<Rightarrow> py_exn + 'b) \<Rightarrow> py_exn + 'b" where
  "bind_exn r f = (case r of Inl e \<Rightarrow> Inl e | Inr x \<Rightarrow> f x)"

text \<open>
  \<open>datetime.isoformat\<close> and \<open>datetime.fromisoformat\<close> belong to Python's library: they
  are parameters of the model. \<open>fromisoformat\<close> raises \<open>ValueError\<close> on a string it
  cannot parse, here \<open>None\<close>.
\<close>

record iso_codec =
  isoformat :: "datetime \<Rightarrow> string"
  fromisoformat :: "string \<Rightarrow> datetime option"

text \<open>
  \<open>timedelta\<close> as Python normalises it: \<open>0 \<le> seconds < 86400\<close> and
  \<open>0 \<le> microseconds < 10^6\<close>, the sign carried by \<open>days\<close>.
\<close>

record timedelta =
  days :: int
  seconds :: int
  microseconds :: int

definition datetime_sub :: "datetime \<Rightarrow> datetime \<Rightarrow> timedelta" where
  "datetime_sub a b =
     (let us = a - b in
      \<lparr>days = us div 86400000000,
       seconds = (us mod 86400000000) div 1000000,
       microseconds = us mod 1000000\<rparr>)"

subsection \<open>The credential entity: \<open>OAuthCredential\<close>\<close>

text \<open>
  The dataclass. Python does not enforce the annotations of its fields: a field holds
  whatever value it was given, so every field is a \<^typ>\<open>tval\<close> here, and the four with
  default \<open>None\<close> are optional. A timestamp set by the code is a \<open>TDatetime\<close>.
\<close>

record OAuthCredential =
  name :: tval
  provider :: tval
  "identifier" :: tval
  account_info :: tval
  credentials :: tval
  created_at :: tval
  expires_at :: "tval option"
  last_used :: "tval option"
  last_refreshed :: "tval option"
  metadata :: "tval option"

text \<open>
  \<open>if not self.expires_at\<close> is false on \<open>None\<close> and on every value that Python takes for
  false; comparing or subtracting a value that is no \<open>datetime\<close> raises \<open>TypeError\<close>.
\<close>

definition is_expired :: "datetime \<Rightarrow> OAuthCredential \<Rightarrow> py_exn + bool" where
  "is_expired now c =
     (case expires_at c of
        None \<Rightarrow> Inr False
      | Some v \<Rightarrow>
          if \<not> truthy v then Inr False
          else (case v of TDatetime e \<Rightarrow> Inr (now \<ge> e) | _ \<Rightarrow> Inl TypeError))"

definition days_until_expiry :: "datetime \<Rightarrow> OAuthCredential \<Rightarrow> py_exn + int option" where
  "days_until_expiry now c =
     (case expires_at c of
        None \<Rightarrow> Inr None
      | Some v \<Rightarrow>
          if \<not> truthy v then Inr None
          else (case v of
                  TDatetime e \<Rightarrow> (let delta = datetime_sub e now in Inr (Some (max 0 (days delta))))
                | _ \<Rightarrow> Inl TypeError))"

definition is_expiring_soon :: "datetime \<Rightarrow> OAuthCredential \<Rightarrow> int \<Rightarrow> py_exn + bool" where
  "is_expiring_soon now c n =
     (case days_until_expiry now c of
        Inl e \<Rightarrow> Inl e
      | Inr None \<Rightarrow> Inr False
      | Inr (Some days_left) \<Rightarrow> Inr (days_left \<le> n))"



text \<open>
  \<open>to_dict\<close>: \<open>asdict\<close>, then \<open>if data[k]: data[k] = data[k].isoformat()\<close> for the four
  timestamps. A value that Python takes for false is left as it is; another value that is
  no \<open>datetime\<close> has no \<open>isoformat\<close> and raises \<open>AttributeError\<close>. The result keeps the
  keys of absent optional fields, with value \<open>None\<close>.
\<close>

definition isoformat_if_set :: "iso_codec \<Rightarrow> tval option \<Rightarrow> py_exn + tval option" where
  "isoformat_if_set codec ov =
     (case ov of
        None \<Rightarrow> Inr None
      | Some v \<Rightarrow>
          if \<not> truthy v then Inr (Some v)
          else (case v of
                  TDatetime t \<Rightarrow> Inr (Some (TStr (isoformat codec t)))
                | _ \<Rightarrow> Inl AttributeError))"

definition to_dict :: "iso_codec \<Rightarrow> OAuthCredential \<Rightarrow> py_exn + (string, tval option) fmap" where
  "to_dict codec c =
     bind_exn (isoformat_if_set codec (Some (created_at c))) (\<lambda>ca.
     bind_exn (isoformat_if_set codec (expires_at c)) (\<lambda>ea.
     bind_exn (isoformat_if_set codec (last_used c)) (\<lambda>lu.
     bind_exn (isoformat_if_set codec (last_refreshed c)) (\<lambda>lr.
       Inr (fmap_of_list
         [(''name'', Some (name c)),
          (''provider'', Some (provider c)),
          (''identifier'', Some (identifier c)),
          (''account_info'', Some (account_info c)),
          (''credentials'', Some (credentials c)),
          (''created_at'', ca),
          (''expires_at'', ea),
          (''last_used'', lu),
          (''last_refreshed'', lr),
          (''metadata'', metadata c)])))))"

text \<open>
  \<open>from_dict\<close>: the four \<open>isinstance(data.get(k), str)\<close> conversions in the source's
  order, then the dataclass constructor \<open>cls(**data)\<close>, which raises \<open>TypeError\<close> on a
  keyword that is no field and on a missing field without default, and checks nothing
  else.
\<close>

definition parse_timestamp :: "iso_codec \<Rightarrow> string \<Rightarrow> table \<Rightarrow> py_exn + table" where
  "parse_timestamp codec k data =
     (case fmlookup data k of
        Some (TStr s) \<Rightarrow>
          (case fromisoformat codec s of
             None \<Rightarrow> Inl ValueError
           | Some t \<Rightarrow> Inr (fmupd k (TDatetime t) data))
      | _ \<Rightarrow> Inr data)"

definition field_names :: "string list" where
  "field_names = [''name'', ''provider'', ''identifier'', ''account_info'', ''credentials'',
     ''created_at'', ''expires_at'', ''last_used'', ''last_refreshed'', ''metadata'']"

definition required_fields :: "string list" where
  "required_fields = [''name'', ''provider'', ''identifier'', ''account_info'', ''credentials'',
     ''created_at'']"

definition OAuthCredential_init :: "table \<Rightarrow> py_exn + OAuthCredential" where
  "OAuthCredential_init kw =
     (if \<not> fmdom kw |\<subseteq>| fset_of_list field_names then Inl TypeError
      else if list_ex (\<lambda>k. fmlookup kw k = None) required_fields then Inl TypeError
      else
        (case (fmlookup kw ''name'', fmlookup kw ''provider'', fmlookup kw ''identifier'',
               fmlookup kw ''account_info'', fmlookup kw ''credentials'',
               fmlookup kw ''created_at'') of
           (Some n, Some p, Some i, Some a, Some cr, Some ca) \<Rightarrow>
             Inr \<lparr>name = n, provider = p, identifier = i, account_info = a,
                  credentials = cr, created_at = ca,
                  expires_at = fmlookup kw ''expires_at'',
                  last_used = fmlookup kw ''last_used'',
                  last_refreshed = fmlookup kw ''last_refreshed'',
                  metadata = fmlookup kw ''metadata''\<rparr>
         | _ \<Rightarrow> Inl TypeError))"

definition from_dict :: "iso_codec \<Rightarrow> table \<Rightarrow> py_exn + OAuthCredential" where
  "from_dict codec data =
     bind_exn (parse_timestamp codec ''created_at'' data) (\<lambda>d1.
     bind_exn (parse_timestamp codec ''expires_at'' d1) (\<lambda>d2.
     bind_exn (parse_timestamp codec ''last_used'' d2) (\<lambda>d3.
     bind_exn (parse_timestamp codec ''last_refreshed'' d3) (\<lambda>d4.
       OAuthCredential_init d4))))"

subsection \<open>The storage engine: \<open>OAuthStorage\<close>\<close>

text \<open>
  \<open>SecureTokenStorage\<close> (module \<open>dango.security\<close>) is the encryption collaborator; its
  two methods are parameters. \<open>encrypt_token\<close> is taken to return a blob for every
  payload; \<open>decrypt_token\<close> returns a payload or raises on a blob it cannot decrypt,
  here \<open>None\<close>.
\<close>

record SecureTokenStorage =
  encrypt_token :: "tval \<Rightarrow> tval"
  decrypt_token :: "tval \<Rightarrow> tval option"

text \<open>
  The backing file \<open>.dlt/secrets.toml\<close> is absent or holds a text; the empty file is the
  empty text.
\<close>

datatype file_state = Absent | Text string

text \<open>
  The \<open>toml\<close> package is a parameter as well. \<open>toml.dump\<close> gets the dictionary that \<open>save\<close>
  or \<open>delete\<close> has built: a document or, when the credential's name is a hashable value
  that is no string, a document whose \<open>oauth\<close> section has one more entry under that
  key. It gives the text (\<open>dumps\<close>) or raises, here \<open>None\<close>. \<open>loads\<close> parses a text or
  raises \<open>TomlDecodeError\<close>, here \<open>None\<close>. Nothing is supposed about the two, and least
  of all that \<open>loads\<close> gives back what \<open>dumps\<close> was given.
\<close>

datatype dump_job = Document table | OddKey table tval table

record toml_lib =
  dumps :: "dump_job \<Rightarrow> string option"
  loads :: "string \<Rightarrow> table option"

record OAuthStorage =
  use_encryption :: bool
  token_storage :: "SecureTokenStorage option"
  secrets_file :: file_state

definition OAuthStorage_init :: "SecureTokenStorage \<Rightarrow> file_state \<Rightarrow> bool \<Rightarrow> OAuthStorage" where
  "OAuthStorage_init sts f use_enc =
     \<lparr>use_encryption = use_enc,
      token_storage = (if use_enc then Some sts else None),
      secrets_file = (case f of Absent \<Rightarrow> Text [] | _ \<Rightarrow> f)\<rparr>"

definition generate_oauth_name :: "string \<Rightarrow> string \<Rightarrow> string" where
  "generate_oauth_name prov ident = prov @ ''_'' @ sanitize_name ident"

text \<open>\<open>toml.load\<close> of the file; the empty text is the empty document.\<close>

definition toml_load :: "toml_lib \<Rightarrow> file_state \<Rightarrow> py_exn + table" where
  "toml_load lib f =
     (case f of
        Absent \<Rightarrow> Inl FileNotFoundError
      | Text s \<Rightarrow>
          if s = [] then Inr fmempty
          else (case loads lib s of None \<Rightarrow> Inl TomlDecodeError | Some d \<Rightarrow> Inr d))"

text \<open>\<open>toml.dump\<close> writes no key whose value is \<open>None\<close>.\<close>

definition toml_omit_none :: "(string, tval option) fmap \<Rightarrow> table" where
  "toml_omit_none d = fmmap the (fmfilter (\<lambda>k. fmlookup d k \<noteq> Some None) d)"

text \<open>
  Writing the document back, \<open>with open(self.secrets_file, 'w') as f: toml.dump(secrets, f)\<close>,
  is two operations on the file: opening for writing creates or truncates it; then
  \<open>toml.dump\<close> computes the text and writes it to the open, empty file, or raises before
  it has written anything.
\<close>

datatype fs_op = OpenW | Dump dump_job

definition exec_op :: "toml_lib \<Rightarrow> file_state \<Rightarrow> fs_op \<Rightarrow> file_state" where
  "exec_op lib f fop =
     (case fop of
        OpenW \<Rightarrow> Text []
      | Dump job \<Rightarrow> (case dumps lib job of None \<Rightarrow> f | Some tx \<Rightarrow> Text tx))"

definition write_back :: "dump_job \<Rightarrow> fs_op list" where
  "write_back job = [OpenW, Dump job]"

definition run_ops :: "toml_lib \<Rightarrow> file_state \<Rightarrow> fs_op list \<Rightarrow> file_state" where
  "run_ops lib f ops = foldl (exec_op lib) f ops"

definition envelope :: "tval \<Rightarrow> tval" where
  "envelope encrypted = TTable (fmap_of_list [(''_encrypted'', TBool True), (''_data'', encrypted)])"

text \<open>
  The entry that \<open>save\<close> prepares: \<open>to_dict\<close>, with the payload replaced by the envelope
  of its ciphertext when encryption is enabled and the collaborator is there.
\<close>

definition prepare_cred_data ::
    "iso_codec \<Rightarrow> OAuthStorage \<Rightarrow> OAuthCredential \<Rightarrow> py_exn + (string, tval option) fmap" where
  "prepare_cred_data codec st oauth_cred =
     bind_exn (to_dict codec oauth_cred) (\<lambda>cred_data.
       case token_storage st of
         Some ts \<Rightarrow>
           if use_encryption st
           then Inr (fmupd ''credentials''
                       (Some (envelope (encrypt_token ts (credentials oauth_cred)))) cred_data)
           else Inr cred_data
       | None \<Rightarrow> Inr cred_data)"

text \<open>
  The dictionary that \<open>save\<close> hands to \<open>toml.dump\<close>, or the exception raised before the
  file is opened, which makes \<open>save\<close> return \<open>False\<close>. A missing file and an empty one
  give the empty document. The assignment \<open>secrets['oauth'][oauth_cred.name] = cred_data\<close>
  raises \<open>TypeError\<close> when \<open>secrets['oauth']\<close> is not a table and when the name is a
  table, which cannot be a key.
\<close>

definition save_document ::
    "toml_lib \<Rightarrow> iso_codec \<Rightarrow> OAuthStorage \<Rightarrow> OAuthCredential \<Rightarrow> py_exn + dump_job" where
  "save_document lib codec st oauth_cred =
     bind_exn (case secrets_file st of Absent \<Rightarrow> Inr fmempty | f \<Rightarrow> toml_load lib f) (\<lambda>loaded.
       let secrets = (if ''oauth'' |\<notin>| fmdom loaded
                      then fmupd ''oauth'' (TTable fmempty) loaded else loaded)
       in bind_exn (prepare_cred_data codec st oauth_cred) (\<lambda>cred_data.
            case fmlookup secrets ''oauth'' of
              Some (TTable sect) \<Rightarrow>
                (case name oauth_cred of
                   TStr n \<Rightarrow>
                     Inr (Document
                           (fmupd ''oauth''
                              (TTable (fmupd n (TTable (toml_omit_none cred_data)) sect))
                              secrets))
                 | TTable t \<Rightarrow> Inl TypeError
                 | k \<Rightarrow> Inr (OddKey secrets k (toml_omit_none cred_data)))
            | _ \<Rightarrow> Inl TypeError))"

text \<open>
  \<open>save\<close> returns \<open>True\<close> when \<open>toml.dump\<close> has returned; when it raises, the file has
  been opened already.
\<close>

definition save ::
    "toml_lib \<Rightarrow> iso_codec \<Rightarrow> OAuthStorage \<Rightarrow> OAuthCredential \<Rightarrow> bool \<times> OAuthStorage" where
  "save lib codec st oauth_cred =
     (case save_document lib codec st oauth_cred of
        Inl e \<Rightarrow> (False, st)
      | Inr job \<Rightarrow>
          (dumps lib job \<noteq> None,
           st\<lparr>secrets_file := run_ops lib (secrets_file st) (write_back job)\<rparr>))"

text \<open>The store when the process stops after the first \<open>k\<close> file operations of \<open>save\<close>.\<close>

definition save_crashed ::
    "nat \<Rightarrow> toml_lib \<Rightarrow> iso_codec \<Rightarrow> OAuthStorage \<Rightarrow> OAuthCredential \<Rightarrow> OAuthStorage" where
  "save_crashed k lib codec st oauth_cred =
     (case save_document lib codec st oauth_cred of
        Inl e \<Rightarrow> st
      | Inr job \<Rightarrow>
          st\<lparr>secrets_file := run_ops lib (secrets_file st) (take k (write_back job))\<rparr>)"





text \<open>
  \<open>delete\<close>: the document to write, or \<open>None\<close> when \<open>delete\<close> returns \<open>False\<close> without
  writing (no file, no section, no such entry, or an exception while reading).
\<close>

definition delete_document :: "toml_lib \<Rightarrow> OAuthStorage \<Rightarrow> string \<Rightarrow> table option" where
  "delete_document lib st oauth_name =
     (case secrets_file st of
        Absent \<Rightarrow> None
      | f \<Rightarrow>
        (case toml_load lib f of
           Inl e \<Rightarrow> None
         | Inr secrets \<Rightarrow>
           (case fmlookup secrets ''oauth'' of
              Some (TTable sect) \<Rightarrow>
                if oauth_name |\<notin>| fmdom sect then None
                else
                  (let sect' = fmdrop oauth_name sect
                   in Some (if sect' = fmempty then fmdrop ''oauth'' secrets
                            else fmupd ''oauth'' (TTable sect') secrets))
            | _ \<Rightarrow> None)))"

definition delete :: "toml_lib \<Rightarrow> OAuthStorage \<Rightarrow> string \<Rightarrow> bool \<times> OAuthStorage" where
  "delete lib st oauth_name =
     (case delete_document lib st oauth_name of
        None \<Rightarrow> (False, st)
      | Some secrets \<Rightarrow>
          (dumps lib (Document secrets) \<noteq> None,
           st\<lparr>secrets_file :=
                run_ops lib (secrets_file st) (write_back (Document secrets))\<rparr>))"

definition delete_crashed :: "nat \<Rightarrow> toml_lib \<Rightarrow> OAuthStorage \<Rightarrow> string \<Rightarrow> OAuthStorage" where
  "delete_crashed k lib st oauth_name =
     (case delete_document lib st oauth_name of
        None \<Rightarrow> st
      | Some secrets \<Rightarrow>
          st\<lparr>secrets_file :=
               run_ops lib (secrets_file st) (take k (write_back (Document secrets)))\<rparr>)"



subsection \<open>What the round trip needs\<close>












text \<open>What \<open>to_dict\<close> leaves for a timestamp that it accepts.\<close>

definition stamp_text :: "iso_codec \<Rightarrow> tval option \<Rightarrow> tval option" where
  "stamp_text codec ov =
     (case ov of Some (TDatetime t) \<Rightarrow> Some (TStr (isoformat codec t)) | _ \<Rightarrow> ov)"

subsection \<open>Provider flows: \<open>GoogleOAuthProvider\<close> and \<open>FacebookOAuthProvider\<close>\<close>

text \<open>
  A flow talks to the terminal, the browser, the network and the \<open>OAuthManager\<close>. What
  these answer during one run is the record \<open>flow_io\<close>; what the flow does to them is the
  list of events it returns with its result. A prompt answers with the text typed, or is
  interrupted (\<open>KeyboardInterrupt\<close>). An HTTP request raises a \<open>RequestException\<close>
  (no connection, an error status from \<open>raise_for_status\<close>, a body that is no JSON) or
  gives a JSON object. \<open>OAuthManager.save_oauth_credentials\<close> is taken to return.
  Headings and instructions printed on the way are left out; every status line is kept.
\<close>

datatype 'a answer = Interrupt | Answer 'a

datatype http_response = RequestFailed | Json table

datatype message =
    ClientRequired
  | FlowFailed
  | InvalidState
  | Exchanging
  | NoRefreshToken
  | TokensReceived
  | ExchangeRequestFailed
  | TokenExchangeFailed
  | AuthComplete string
  | Cancelled
  | ErrorRaised py_exn
  | TokenRequired
  | AppRequired
  | LongTokenObtained
  | NoAccessToken
  | TokenExpiresOn datetime

datatype event =
    Print message
  | OpenBrowser string
  | StartOAuthFlow string string "(string \<times> string) list"
  | HttpPost string "(string \<times> string) list"
  | HttpGet string "(string \<times> string) list"
  | SaveOAuthCredentials string table "table option"

record flow_io =
  confirm_open :: "bool answer"
  ask_client_id :: "string answer"
  ask_client_secret :: "string answer"
  generate_state :: string
  callback_url :: string
  start_oauth_flow :: "(string, string) fmap option"
  post_token :: http_response
  ask_developer_token :: "string answer"
  ask_customer_id :: "string answer"
  ask_property_id :: "string answer"
  ask_short_token :: "string answer"
  ask_app_id :: "string answer"
  ask_app_secret :: "string answer"
  get_exchange :: http_response
  ask_account_id :: "string answer"
  clock_now :: datetime

text \<open>\<open>str.strip()\<close>, on characters read as code points below 256.\<close>

definition is_space :: "char \<Rightarrow> bool" where
  "is_space c = (let n = (of_char c :: nat) in
     (9 \<le> n \<and> n \<le> 13) \<or> (28 \<le> n \<and> n \<le> 32) \<or> n = 133 \<or> n = 160)"

definition strip :: "string \<Rightarrow> string" where
  "strip s = rev (dropWhile is_space (rev (dropWhile is_space s)))"

text \<open>
  A prompt inside the \<open>try\<close> block: interrupted, the flow prints that it was cancelled and
  returns \<open>False\<close>; answered, it goes on with the stripped text.
\<close>

definition ask :: "string answer \<Rightarrow> event list \<Rightarrow> (string \<Rightarrow> bool \<times> event list) \<Rightarrow> bool \<times> event list" where
  "ask a tr k = (case a of Interrupt \<Rightarrow> (False, tr @ [Print Cancelled]) | Answer s \<Rightarrow> k (strip s))"

definition AUTH_URL :: string where
  "AUTH_URL = ''https://accounts.google.com/o/oauth2/v2/auth''"

definition TOKEN_URL :: string where
  "TOKEN_URL = ''https://oauth2.googleapis.com/token''"

definition SCOPES :: "(string \<times> string list) list" where
  "SCOPES =
     [(''google_ads'', [''https://www.googleapis.com/auth/adwords'']),
      (''google_analytics'', [''https://www.googleapis.com/auth/analytics.readonly'']),
      (''google_sheets'', [''https://www.googleapis.com/auth/spreadsheets.readonly'',
                           ''https://www.googleapis.com/auth/drive.readonly''])]"

fun join_spaces :: "string list \<Rightarrow> string" where
  "join_spaces [] = []"
| "join_spaces [s] = s"
| "join_spaces (s # ss) = s @ '' '' @ join_spaces ss"

definition exchange_code_for_tokens ::
    "flow_io \<Rightarrow> string \<Rightarrow> string \<Rightarrow> string \<Rightarrow> table option \<times> event list" where
  "exchange_code_for_tokens io code client_id client_secret =
     (let token_data = [(''code'', code), (''client_id'', client_id),
                        (''client_secret'', client_secret),
                        (''redirect_uri'', callback_url io),
                        (''grant_type'', ''authorization_code'')];
          post = HttpPost TOKEN_URL token_data
      in case post_token io of
           RequestFailed \<Rightarrow> (None, [post, Print ExchangeRequestFailed])
         | Json tokens \<Rightarrow>
             if ''refresh_token'' |\<notin>| fmdom tokens
             then (None, [post, Print NoRefreshToken])
             else (Some tokens, [post, Print TokensReceived]))"

text \<open>The end of \<open>authenticate\<close>, from "save credentials in dlt format" on.\<close>

definition google_save_credentials ::
    "flow_io \<Rightarrow> string \<Rightarrow> string \<Rightarrow> string \<Rightarrow> tval \<Rightarrow> event list \<Rightarrow> bool \<times> event list" where
  "google_save_credentials io service client_id client_secret refresh_token tr =
     (let credentials = fmap_of_list
            [(''client_id'', TStr client_id), (''client_secret'', TStr client_secret),
             (''refresh_token'', refresh_token), (''project_id'', TStr [])];
          finish = (\<lambda>creds. (True, tr @ [SaveOAuthCredentials service creds None,
                                          Print (AuthComplete service)]))
      in if service = ''google_ads'' then
           ask (ask_developer_token io) tr (\<lambda>dev_token.
           ask (ask_customer_id io) tr (\<lambda>customer_id.
             let c1 = (if dev_token \<noteq> [] then fmupd ''developer_token'' (TStr dev_token) credentials
                       else credentials);
                 c2 = (if customer_id \<noteq> [] then fmupd ''customer_id'' (TStr customer_id) c1
                       else c1)
             in finish c2))
         else if service = ''google_analytics'' then
           ask (ask_property_id io) tr (\<lambda>property_id.
             if property_id \<noteq> [] then
               (True, tr @ [SaveOAuthCredentials service credentials
                              (Some (fmap_of_list [(''property_id'', TStr property_id)])),
                            Print (AuthComplete service)])
             else finish credentials)
         else finish credentials)"

definition GoogleOAuthProvider_authenticate :: "flow_io \<Rightarrow> string \<Rightarrow> bool \<times> event list" where
  "GoogleOAuthProvider_authenticate io service =
     (case confirm_open io of
        Interrupt \<Rightarrow> (False, [Print Cancelled])
      | Answer opn \<Rightarrow>
        (let t1 = (if opn then [OpenBrowser ''https://console.cloud.google.com/apis/credentials'']
                   else [])
         in ask (ask_client_id io) t1 (\<lambda>client_id.
            ask (ask_client_secret io) t1 (\<lambda>client_secret.
              if client_id = [] \<or> client_secret = [] then (False, t1 @ [Print ClientRequired])
              else
                (let scopes = (case map_of SCOPES service of
                                 Some s \<Rightarrow> s
                               | None \<Rightarrow> [''https://www.googleapis.com/auth/adwords'']);
                     state = generate_state io;
                     auth_params = [(''client_id'', client_id),
                                    (''redirect_uri'', callback_url io),
                                    (''response_type'', ''code''),
                                    (''scope'', join_spaces scopes),
                                    (''access_type'', ''offline''),
                                    (''prompt'', ''consent''),
                                    (''state'', state)];
                     t2 = t1 @ [StartOAuthFlow ''Google'' AUTH_URL auth_params]
                 in case start_oauth_flow io of
                      None \<Rightarrow> (False, t2 @ [Print FlowFailed])
                    | Some oauth_response \<Rightarrow>
                        if oauth_response = fmempty then (False, t2 @ [Print FlowFailed])
                        else if fmlookup oauth_response ''state'' \<noteq> Some state
                        then (False, t2 @ [Print InvalidState])
                        else
                          (case fmlookup oauth_response ''code'' of
                             None \<Rightarrow> (False, t2 @ [Print Exchanging, Print (ErrorRaised KeyError)])
                           | Some code \<Rightarrow>
                               (case exchange_code_for_tokens io code client_id client_secret of
                                  (None, te) \<Rightarrow>
                                    (False, t2 @ [Print Exchanging] @ te @ [Print TokenExchangeFailed])
                                | (Some tokens, te) \<Rightarrow>
                                    if tokens = fmempty
                                    then (False, t2 @ [Print Exchanging] @ te
                                                   @ [Print TokenExchangeFailed])
                                    else
                                      (case fmlookup tokens ''refresh_token'' of
                                         None \<Rightarrow>
                                           (False, t2 @ [Print Exchanging] @ te
                                                      @ [Print (ErrorRaised KeyError)])
                                       | Some refresh_token \<Rightarrow>
                                           google_save_credentials io service client_id
                                             client_secret refresh_token
                                             (t2 @ [Print Exchanging] @ te)))))))))"

definition TOKEN_EXCHANGE_URL :: string where
  "TOKEN_EXCHANGE_URL = ''https://graph.facebook.com/v18.0/oauth/access_token''"

definition exchange_token ::
    "flow_io \<Rightarrow> string \<Rightarrow> string \<Rightarrow> string \<Rightarrow> tval option \<times> event list" where
  "exchange_token io short_token app_id app_secret =
     (let params = [(''grant_type'', ''fb_exchange_token''), (''client_id'', app_id),
                    (''client_secret'', app_secret), (''fb_exchange_token'', short_token)];
          req = HttpGet TOKEN_EXCHANGE_URL params
      in case get_exchange io of
           RequestFailed \<Rightarrow> (None, [req, Print ExchangeRequestFailed])
         | Json data \<Rightarrow>
             (case fmlookup data ''access_token'' of
                None \<Rightarrow> (None, [req, Print NoAccessToken])
              | Some long_token \<Rightarrow>
                  if truthy long_token then (Some long_token, [req, Print LongTokenObtained])
                  else (None, [req, Print NoAccessToken])))"

definition FacebookOAuthProvider_authenticate :: "flow_io \<Rightarrow> bool \<times> event list" where
  "FacebookOAuthProvider_authenticate io =
     (case confirm_open io of
        Interrupt \<Rightarrow> (False, [Print Cancelled])
      | Answer opn \<Rightarrow>
        (let t1 = (if opn then [OpenBrowser ''https://developers.facebook.com/tools/explorer/'']
                   else [])
         in ask (ask_short_token io) t1 (\<lambda>short_token.
              if short_token = [] then (False, t1 @ [Print TokenRequired])
              else
                ask (ask_app_id io) t1 (\<lambda>app_id.
                ask (ask_app_secret io) t1 (\<lambda>app_secret.
                  if app_id = [] \<or> app_secret = [] then (False, t1 @ [Print AppRequired])
                  else
                    (case exchange_token io short_token app_id app_secret of
                       (None, te) \<Rightarrow>
                         (False, t1 @ [Print Exchanging] @ te @ [Print TokenExchangeFailed])
                     | (Some long_token, te) \<Rightarrow>
                         if \<not> truthy long_token
                         then (False, t1 @ [Print Exchanging] @ te @ [Print TokenExchangeFailed])
                         else
                           ask (ask_account_id io) (t1 @ [Print Exchanging] @ te) (\<lambda>account_id.
                             (let credentials = fmap_of_list
                                    [(''access_token'', long_token),
                                     (''account_id'', TStr account_id)];
                                  expiry_date = clock_now io + 60 * 86400000000
                              in (True, t1 @ [Print Exchanging] @ te @
                                    [SaveOAuthCredentials ''facebook_ads'' credentials None,
                                     Print (AuthComplete ''facebook_ads''),
                                     Print (TokenExpiresOn expiry_date)])))))))))"

text \<open>Events of a kind.\<close>

fun is_token_request :: "event \<Rightarrow> bool" where
  "is_token_request (HttpPost url data) = True"
| "is_token_request (HttpGet url data) = True"
| "is_token_request e = False"

fun is_save :: "event \<Rightarrow> bool" where
  "is_save (SaveOAuthCredentials service creds config) = True"
| "is_save e = False"

fun is_flow_start :: "event \<Rightarrow> bool" where
  "is_flow_start (StartOAuthFlow label url params) = True"
| "is_flow_start e = False"

subsection \<open>Concrete inputs\<close>


text \<open>
  A stand-in for the ISO format, for the concrete runs below: the timestamp \<open>t\<close> is written
  as \<open>t\<close> letters \<open>x\<close>, and only such strings are read back.
\<close>

definition unary_codec :: iso_codec where
  "unary_codec =
     \<lparr>isoformat = (\<lambda>t. replicate (nat t) CHR ''x''),
      fromisoformat = (\<lambda>s. if list_all (\<lambda>c. c = CHR ''x'') s then Some (int (length s)) else None)\<rparr>"

text \<open>
  A stand-in for the encryption collaborator: the blob wraps the payload under the key
  \<open>ct\<close>, and only such blobs are decrypted.
\<close>

definition wrap_storage :: SecureTokenStorage where
  "wrap_storage =
     \<lparr>encrypt_token = (\<lambda>p. TTable (fmupd ''ct'' p fmempty)),
      decrypt_token = (\<lambda>v. case v of TTable t \<Rightarrow> fmlookup t ''ct'' | _ \<Rightarrow> None)\<rparr>"

text \<open>A collaborator that answers every payload with the same blob.\<close>

definition const_storage :: SecureTokenStorage where
  "const_storage =
     \<lparr>encrypt_token = (\<lambda>p. TStr ''x''), decrypt_token = (\<lambda>v. None)\<rparr>"

definition cred_alice :: OAuthCredential where
  "cred_alice =
     \<lparr>name = TStr ''google_alice_example_com'', provider = TStr ''google'',
      identifier = TStr ''alice@example.com'', account_info = TStr ''Alice'',
      credentials = TTable (fmupd ''refresh_token'' (TStr ''r1'') fmempty),
      created_at = TDatetime 3, expires_at = Some (TDatetime 7), last_used = None,
      last_refreshed = None, metadata = None\<rparr>"


text \<open>
  The documents of the runs below: a file that holds a section of another subsystem;
  that file after Alice's credential has been saved with encryption; after
  \<open>update_last_used\<close> at time 9; and after the tagged credential has been saved in the
  clear.
\<close>

definition sources_doc :: table where
  "sources_doc = fmupd ''sources'' (TTable (fmupd ''shopify'' (TTable fmempty) fmempty)) fmempty"

definition alice_entry :: table where
  "alice_entry = fmap_of_list
     [(''name'', TStr ''google_alice_example_com''),
      (''provider'', TStr ''google''),
      (''identifier'', TStr ''alice@example.com''),
      (''account_info'', TStr ''Alice''),
      (''credentials'', TTable (fmap_of_list
          [(''_encrypted'', TBool True),
           (''_data'', TTable (fmupd ''ct''
              (TTable (fmupd ''refresh_token'' (TStr ''r1'') fmempty)) fmempty))])),
      (''created_at'', TStr ''xxx''),
      (''expires_at'', TStr ''xxxxxxx'')]"

definition alice_doc :: table where
  "alice_doc =
     fmupd ''oauth'' (TTable (fmupd ''google_alice_example_com'' (TTable alice_entry) fmempty))
       sources_doc"

definition updated_doc :: table where
  "updated_doc =
     fmupd ''oauth''
       (TTable (fmupd ''google_alice_example_com''
          (TTable (fmupd ''last_used'' (TStr ''xxxxxxxxx'') alice_entry)) fmempty))
       sources_doc"

definition tagged_doc :: table where
  "tagged_doc =
     fmupd ''oauth''
       (TTable (fmupd ''google_alice_example_com''
          (TTable (fmupd ''credentials'' (TTable (fmupd ''_encrypted'' (TBool True) fmempty))
             alice_entry)) fmempty))
       sources_doc"

text \<open>
  A stand-in for the \<open>toml\<close> package that knows these four documents: it tells them apart
  by a few of their entries, writes each as a word, and reads the four words back. It
  raises on a key that is no string.
\<close>

definition shelf_label :: "table \<Rightarrow> string" where
  "shelf_label d =
     (case fmlookup d ''oauth'' of
        Some (TTable sect) \<Rightarrow>
          (case fmlookup sect ''google_alice_example_com'' of
             Some (TTable e) \<Rightarrow>
               (case fmlookup e ''credentials'' of
                  Some (TTable c) \<Rightarrow>
                    if fmlookup c ''_data'' = None then ''tagged''
                    else if fmlookup e ''last_used'' = None then ''alice''
                    else ''updated''
                | _ \<Rightarrow> ''other'')
           | _ \<Rightarrow> ''other'')
      | _ \<Rightarrow> ''sources'')"

definition shelf_toml :: toml_lib where
  "shelf_toml =
     \<lparr>dumps = (\<lambda>job. case job of Document d \<Rightarrow> Some (shelf_label d) | OddKey s k e \<Rightarrow> None),
      loads = (\<lambda>s. if s = ''sources'' then Some sources_doc
                    else if s = ''alice'' then Some alice_doc
                    else if s = ''updated'' then Some updated_doc
                    else if s = ''tagged'' then Some tagged_doc
                    else None)\<rparr>"

definition encrypted_store :: OAuthStorage where
  "encrypted_store = OAuthStorage_init wrap_storage (Text ''sources'') True"


text \<open>The encrypted store after Alice's credential has been saved.\<close>

definition alice_store :: OAuthStorage where
  "alice_store = encrypted_store\<lparr>secrets_file := Text ''alice''\<rparr>"








text \<open>A run in which every prompt is answered and every request succeeds.\<close>

definition happy_io :: flow_io where
  "happy_io =
     \<lparr>confirm_open = Answer False,
      ask_client_id = Answer ''cid'',
      ask_client_secret = Answer ''secret'',
      generate_state = ''nonce-1'',
      callback_url = ''http://localhost:8080/callback'',
      start_oauth_flow = Some (fmap_of_list [(''code'', ''c0de''), (''state'', ''nonce-1'')]),
      post_token = Json (fmap_of_list [(''access_token'', TStr ''at''), (''refresh_token'', TStr ''rt'')]),
      ask_developer_token = Answer [],
      ask_customer_id = Answer [],
      ask_property_id = Answer [],
      ask_short_token = Answer ''short'',
      ask_app_id = Answer ''app'',
      ask_app_secret = Answer ''appsecret'',
      get_exchange = Json (fmap_of_list [(''access_token'', TStr ''long'')]),
      ask_account_id = Answer ''act_1'',
      clock_now = 1000\<rparr>"

text \<open>The same run, but the redirect comes back with another state.\<close>

definition forged_io :: flow_io where
  "forged_io = happy_io
     \<lparr>start_oauth_flow := Some (fmap_of_list [(''code'', ''c0de''), (''state'', ''other'')])\<rparr>"

text \<open>The same run, but the token endpoint answers without a refresh token.\<close>

definition no_refresh_io :: flow_io where
  "no_refresh_io = happy_io\<lparr>post_token := Json (fmap_of_list [(''access_token'', TStr ''at'')])\<rparr>"

section \<open>Verification\<close>

subsection \<open>Sanitization\<close>

lemma sublist2_Cons:
  "sublist [a, a] (c # cs) \<longleftrightarrow> (c = a \<and> cs \<noteq> [] \<and> hd cs = a) \<or> sublist [a, a] cs"
proof (cases cs)
  case Nil
  then show ?thesis by (simp add: sublist_Cons_right)
next
  case (Cons d ds)
  then show ?thesis by (simp add: sublist_Cons_right) blast
qed

lemma sub_runs_run:
  "cs \<noteq> [] \<Longrightarrow> hd cs = CHR ''_'' \<Longrightarrow>
   sub_runs (CHR ''_'' # cs) = CHR ''_'' # sub_runs (dropWhile (\<lambda>x. x = CHR ''_'') cs)"
  by simp

lemma sub_runs_step:
  "\<not> (c = CHR ''_'' \<and> cs \<noteq> [] \<and> hd cs = CHR ''_'') \<Longrightarrow> sub_runs (c # cs) = c # sub_runs cs"
  by auto

declare sub_runs.simps(2) [simp del]

lemma sub_invalid_fix: "\<forall>c\<in>set s. in_class c \<Longrightarrow> sub_invalid s = s"
  by (simp add: sub_invalid_def map_idI)

lemma sub_runs_Nil_iff: "sub_runs s = [] \<longleftrightarrow> s = []"
  by (cases s) (simp_all add: sub_runs.simps(2))

lemma hd_sub_runs: "s \<noteq> [] \<Longrightarrow> hd (sub_runs s) = hd s"
  by (cases s) (simp_all add: sub_runs.simps(2))

lemma set_sub_runs: "set (sub_runs s) \<subseteq> set s"
proof (induction s rule: sub_runs.induct)
  case 1
  show ?case by simp
next
  case (2 c cs)
  have d: "set (dropWhile (\<lambda>x. x = CHR ''_'') cs) \<subseteq> set cs"
    using set_dropWhileD by fastforce
  show ?case
  proof (cases "c = CHR ''_'' \<and> cs \<noteq> [] \<and> hd cs = CHR ''_''")
    case True
    with 2(1) d show ?thesis by (auto simp: sub_runs_run)
  next
    case False
    with 2(2) show ?thesis by (auto simp: sub_runs_step)
  qed
qed

lemma sub_runs_no_double: "\<not> sublist ''__'' (sub_runs s)"
proof (induction s rule: sub_runs.induct)
  case 1
  show ?case by simp
next
  case (2 c cs)
  show ?case
  proof (cases "c = CHR ''_'' \<and> cs \<noteq> [] \<and> hd cs = CHR ''_''")
    case True
    let ?r = "dropWhile (\<lambda>x. x = CHR ''_'') cs"
    have "?r = [] \<or> hd ?r \<noteq> CHR ''_''"
      using hd_dropWhile[of "\<lambda>x. x = CHR ''_''" cs] by blast
    then have h: "sub_runs ?r = [] \<or> hd (sub_runs ?r) \<noteq> CHR ''_''"
      using hd_sub_runs[of ?r] sub_runs_Nil_iff[of ?r] by metis
    have n: "\<not> sublist ''__'' (sub_runs ?r)"
      using 2(1) True by blast
    have e: "sub_runs (c # cs) = CHR ''_'' # sub_runs ?r"
      using True by (simp add: sub_runs_run)
    show ?thesis unfolding e using h n
      by (simp add: sublist2_Cons)
  next
    case False
    then have n: "\<not> sublist ''__'' (sub_runs cs)" using 2(2) by blast
    have e: "sub_runs (c # cs) = c # sub_runs cs"
      using False by (simp add: sub_runs_step)
    have "\<not> (c = CHR ''_'' \<and> sub_runs cs \<noteq> [] \<and> hd (sub_runs cs) = CHR ''_'')"
      using False hd_sub_runs[of cs] sub_runs_Nil_iff[of cs] by metis
    then show ?thesis unfolding e using n
      by (simp add: sublist2_Cons)
  qed
qed

lemma sub_runs_fix: "\<not> sublist ''__'' s \<Longrightarrow> sub_runs s = s"
proof (induction s rule: sub_runs.induct)
  case 1
  show ?case by simp
next
  case (2 c cs)
  from 2(3) have a: "\<not> (c = CHR ''_'' \<and> cs \<noteq> [] \<and> hd cs = CHR ''_'')" and b: "\<not> sublist ''__'' cs"
    by (simp_all add: sublist2_Cons)
  have e: "sub_runs (c # cs) = c # sub_runs cs"
    using a by (simp add: sub_runs_step)
  from 2(2)[OF a b] e show ?case by simp
qed


lemma strip_us_sublist: "sublist (strip_us s) s"
proof -
  let ?P = "\<lambda>x. x = CHR ''_''"
  have 1: "sublist (dropWhile ?P (rev (dropWhile ?P s))) (rev (dropWhile ?P s))"
    by (rule sublist_dropWhile)
  have 2: "sublist (rev (dropWhile ?P s)) (rev s)"
    by simp
  from 1 2 have "sublist (dropWhile ?P (rev (dropWhile ?P s))) (rev s)"
    by (rule sublist_order.order_trans)
  then show ?thesis
    by (simp add: strip_us_def sublist_rev_left)
qed

lemma strip_us_no_double: "\<not> sublist ''__'' s \<Longrightarrow> \<not> sublist ''__'' (strip_us s)"
proof
  assume a: "\<not> sublist ''__'' s" and b: "sublist ''__'' (strip_us s)"
  from b strip_us_sublist[of s] have "sublist ''__'' s"
    by (rule sublist_order.order_trans)
  with a show False by simp
qed

lemma last_dropWhile: "dropWhile P xs \<noteq> [] \<Longrightarrow> last (dropWhile P xs) = last xs"
  by (induction xs) (auto split: if_splits)

lemma dropWhile_ends:
  assumes "hd xs \<noteq> u" "xs \<noteq> []"
  shows "dropWhile (\<lambda>x. x = u) (rev xs) = [] \<or>
         (hd (rev (dropWhile (\<lambda>x. x = u) (rev xs))) \<noteq> u \<and>
          last (rev (dropWhile (\<lambda>x. x = u) (rev xs))) \<noteq> u)"
proof -
  define b where "b = dropWhile (\<lambda>x. x = u) (rev xs)"
  show ?thesis
  proof (cases "b = []")
    case True
    then show ?thesis unfolding b_def by blast
  next
    case False
    then have hb: "hd b \<noteq> u"
      unfolding b_def using hd_dropWhile[of "\<lambda>x. x = u" "rev xs"] by blast
    have "last b = last (rev xs)"
      using False unfolding b_def by (rule last_dropWhile)
    also have "\<dots> = hd xs" using assms(2) by (simp add: last_rev)
    finally have lb: "last b \<noteq> u" using assms(1) by simp
    have "hd (rev b) = last b" using False by (simp add: hd_rev)
    moreover have "last (rev b) = hd b" using False by (simp add: last_rev)
    ultimately have "hd (rev b) \<noteq> u \<and> last (rev b) \<noteq> u" using hb lb by simp
    then show ?thesis unfolding b_def by blast
  qed
qed

lemma strip_us_ends:
  "strip_us s = [] \<or> (hd (strip_us s) \<noteq> CHR ''_'' \<and> last (strip_us s) \<noteq> CHR ''_'')"
proof -
  define a where "a = dropWhile (\<lambda>x. x = CHR ''_'') s"
  have e: "strip_us s = rev (dropWhile (\<lambda>x. x = CHR ''_'') (rev a))"
    by (simp add: strip_us_def a_def)
  show ?thesis
  proof (cases "a = []")
    case True
    then show ?thesis unfolding e by simp
  next
    case False
    then have "hd a \<noteq> CHR ''_''"
      unfolding a_def using hd_dropWhile[of "\<lambda>x. x = CHR ''_''" s] by blast
    from dropWhile_ends[OF this False] show ?thesis unfolding e by simp
  qed
qed

lemma strip_us_fix:
  assumes "s = [] \<or> (hd s \<noteq> CHR ''_'' \<and> last s \<noteq> CHR ''_'')"
  shows "strip_us s = s"
proof (cases "s = []")
  case True
  then show ?thesis by (simp add: strip_us_def)
next
  case False
  with assms have h: "hd s \<noteq> CHR ''_''" and l: "last s \<noteq> CHR ''_''" by auto
  from False h have 1: "dropWhile (\<lambda>x. x = CHR ''_'') s = s"
    by (cases s) auto
  from False l have "hd (rev s) \<noteq> CHR ''_''" by (simp add: hd_rev)
  with False have 2: "dropWhile (\<lambda>x. x = CHR ''_'') (rev s) = rev s"
    by (cases "rev s") auto
  show ?thesis by (simp add: strip_us_def 1 2)
qed

lemma us_code: "(c = CHR ''_'') = (of_char c = (95::nat))"
proof -
  have "(of_char c = (of_char CHR ''_'' :: nat)) = (c = CHR ''_'')"
    by (rule of_char_eq_iff)
  then show ?thesis by simp
qed

lemma lower_char_upper:
  "65 \<le> (of_char c :: nat) \<Longrightarrow> (of_char c :: nat) \<le> 90 \<Longrightarrow>
   (of_char (lower_char c) :: nat) = of_char c + 32"
  by (simp add: lower_char_def Let_def)

lemma lower_char_other:
  "\<not> (65 \<le> (of_char c :: nat) \<and> (of_char c :: nat) \<le> 90) \<Longrightarrow> lower_char c = c"
  unfolding lower_char_def Let_def by (rule if_not_P)

lemma lower_char_us: "lower_char c = CHR ''_'' \<longleftrightarrow> c = CHR ''_''"
proof (cases "65 \<le> (of_char c :: nat) \<and> (of_char c :: nat) \<le> 90")
  case True
  then have "(of_char (lower_char c) :: nat) = of_char c + 32"
    by (simp add: lower_char_upper)
  with True have "(of_char (lower_char c) :: nat) \<noteq> 95 \<and> (of_char c :: nat) \<noteq> 95" by arith
  then show ?thesis by (simp add: us_code)
next
  case False
  then show ?thesis by (simp add: lower_char_other)
qed

lemma lower_char_class: 
  assumes "in_class c" shows "in_class (lower_char c)"
proof (cases "65 \<le> (of_char c :: nat) \<and> (of_char c :: nat) \<le> 90")
  case True
  then have "(of_char (lower_char c) :: nat) = of_char c + 32"
    by (simp add: lower_char_upper)
  with True have "97 \<le> (of_char (lower_char c) :: nat) \<and> (of_char (lower_char c) :: nat) \<le> 122"
    by arith
  then show ?thesis by (simp add: in_class_def Let_def)
next
  case False
  with assms show ?thesis by (simp add: lower_char_other)
qed

lemma lower_char_idem: "lower_char (lower_char c) = lower_char c"
proof (cases "65 \<le> (of_char c :: nat) \<and> (of_char c :: nat) \<le> 90")
  case True
  then have "(of_char (lower_char c) :: nat) = of_char c + 32"
    by (simp add: lower_char_upper)
  with True have "\<not> (65 \<le> (of_char (lower_char c) :: nat) \<and> (of_char (lower_char c) :: nat) \<le> 90)"
    by arith
  then show ?thesis by (rule lower_char_other)
next
  case False
  then show ?thesis by (simp add: lower_char_other)
qed


lemma in_class_us: "in_class CHR ''_''"
  by (simp add: in_class_def)

lemma in_class_sub_invalid: "\<forall>c\<in>set (sub_invalid s). in_class c"
  by (auto simp: sub_invalid_def in_class_us)

lemma map_no_double:
  assumes "\<And>c. f c = u \<longleftrightarrow> c = u"
  shows "sublist [u, u] (map f s) \<longleftrightarrow> sublist [u, u] s"
proof (induction s)
  case Nil
  show ?case by simp
next
  case (Cons c cs)
  have "(map f cs \<noteq> [] \<and> hd (map f cs) = u) = (cs \<noteq> [] \<and> hd cs = u)"
    using assms by (cases cs) simp_all
  with Cons assms show ?case
    by (simp add: sublist2_Cons)
qed

lemma map_ends:
  assumes "\<And>c. f c = u \<longleftrightarrow> c = u" and "s = [] \<or> (hd s \<noteq> u \<and> last s \<noteq> u)"
  shows "map f s = [] \<or> (hd (map f s) \<noteq> u \<and> last (map f s) \<noteq> u)"
proof (cases "s = []")
  case True
  then show ?thesis by simp
next
  case False
  with assms(2) have "hd s \<noteq> u" "last s \<noteq> u" by simp_all
  with False assms(1) show ?thesis by (simp add: hd_map last_map)
qed

lemma sanitize_name_class: "\<forall>c\<in>set (sanitize_name x). in_class c"
proof -
  have 1: "set (sub_runs (sub_invalid x)) \<subseteq> set (sub_invalid x)"
    by (rule set_sub_runs)
  have 2: "set (strip_us (sub_runs (sub_invalid x))) \<subseteq> set (sub_runs (sub_invalid x))"
    using strip_us_sublist by (rule set_mono_sublist)
  from 1 2 in_class_sub_invalid[of x]
  have "\<forall>c\<in>set (strip_us (sub_runs (sub_invalid x))). in_class c" by blast
  then show ?thesis
    by (simp add: sanitize_name_def lower_def lower_char_class)
qed

lemma sanitize_name_no_double: "\<not> sublist ''__'' (sanitize_name x)"
proof -
  have "\<not> sublist ''__'' (strip_us (sub_runs (sub_invalid x)))"
    by (rule strip_us_no_double) (rule sub_runs_no_double)
  then show ?thesis
    unfolding sanitize_name_def lower_def
    using map_no_double[of lower_char "CHR ''_''", OF lower_char_us] by simp
qed

lemma sanitize_name_ends:
  "sanitize_name x = [] \<or> (hd (sanitize_name x) \<noteq> CHR ''_'' \<and> last (sanitize_name x) \<noteq> CHR ''_'')"
  unfolding sanitize_name_def lower_def
  by (rule map_ends[OF lower_char_us strip_us_ends])

lemma lower_sanitize_name: "lower (sanitize_name x) = sanitize_name x"
  by (simp add: sanitize_name_def lower_def lower_char_idem)

text \<open>
  Claim C9. Sanitization is idempotent: for every input string \<open>x\<close>, sanitizing the
  sanitized name again gives the same name.
\<close>

theorem sanitize_idempotent: "sanitize_name (sanitize_name x) = sanitize_name x"
proof -
  define y where "y = sanitize_name x"
  have 1: "sub_invalid y = y"
    unfolding y_def by (rule sub_invalid_fix) (rule sanitize_name_class)
  have 2: "sub_runs y = y"
    unfolding y_def by (rule sub_runs_fix) (rule sanitize_name_no_double)
  have 3: "strip_us y = y"
    unfolding y_def by (rule strip_us_fix) (rule sanitize_name_ends)
  have 4: "lower y = y"
    unfolding y_def by (rule lower_sanitize_name)
  have "sanitize_name y = y"
    by (simp add: sanitize_name_def[of y] 1 2 3 4)
  then show ?thesis by (simp add: y_def)
qed

subsection \<open>Expiry\<close>





subsection \<open>Deserialisation\<close>

lemma parse_timestamp_cases:
  "parse_timestamp codec key data = Inl ValueError \<or>
   (\<exists>d. parse_timestamp codec key data = Inr d \<and>
        (\<forall>k. fmlookup d k = None \<longleftrightarrow> fmlookup data k = None))"
  by (auto simp: parse_timestamp_def split: option.splits tval.splits)

lemma init_missing:
  assumes "k \<in> set required_fields" and "fmlookup kw k = None"
  shows "OAuthCredential_init kw = Inl TypeError"
proof -
  from assms have "list_ex (\<lambda>k. fmlookup kw k = None) required_fields"
    unfolding list_ex_iff by blast
  then show ?thesis by (simp add: OAuthCredential_init_def)
qed

text \<open>
  Claim C6, as amended. \<open>from_dict\<close> rejects a mapping that lacks a required field
  (\<open>name\<close>, \<open>provider\<close>, \<open>identifier\<close>, \<open>account_info\<close>, \<open>credentials\<close>, \<open>created_at\<close>) by
  raising: \<open>TypeError\<close> from the dataclass constructor, or \<open>ValueError\<close> when a timestamp
  string of the mapping does not parse, which is tried first.
\<close>

theorem from_dict_missing_field_raises:
  assumes "k \<in> set required_fields" and "fmlookup data k = None"
  shows "from_dict codec data = Inl TypeError \<or> from_dict codec data = Inl ValueError"
proof -
  note p = parse_timestamp_cases
  from p[of codec "''created_at''" data] show ?thesis
  proof
    assume "parse_timestamp codec ''created_at'' data = Inl ValueError"
    then show ?thesis by (simp add: from_dict_def bind_exn_def)
  next
    assume "\<exists>d. parse_timestamp codec ''created_at'' data = Inr d \<and>
        (\<forall>k. fmlookup d k = None \<longleftrightarrow> fmlookup data k = None)"
    then obtain d1 where d1: "parse_timestamp codec ''created_at'' data = Inr d1"
      and k1: "fmlookup d1 k = None" using assms(2) by blast
    from p[of codec "''expires_at''" d1] show ?thesis
    proof
      assume "parse_timestamp codec ''expires_at'' d1 = Inl ValueError"
      then show ?thesis using d1 by (simp add: from_dict_def bind_exn_def)
    next
      assume "\<exists>d. parse_timestamp codec ''expires_at'' d1 = Inr d \<and>
          (\<forall>k. fmlookup d k = None \<longleftrightarrow> fmlookup d1 k = None)"
      then obtain d2 where d2: "parse_timestamp codec ''expires_at'' d1 = Inr d2"
        and k2: "fmlookup d2 k = None" using k1 by blast
      from p[of codec "''last_used''" d2] show ?thesis
      proof
        assume "parse_timestamp codec ''last_used'' d2 = Inl ValueError"
        then show ?thesis using d1 d2 by (simp add: from_dict_def bind_exn_def)
      next
        assume "\<exists>d. parse_timestamp codec ''last_used'' d2 = Inr d \<and>
            (\<forall>k. fmlookup d k = None \<longleftrightarrow> fmlookup d2 k = None)"
        then obtain d3 where d3: "parse_timestamp codec ''last_used'' d2 = Inr d3"
          and k3: "fmlookup d3 k = None" using k2 by blast
        from p[of codec "''last_refreshed''" d3] show ?thesis
        proof
          assume "parse_timestamp codec ''last_refreshed'' d3 = Inl ValueError"
          then show ?thesis using d1 d2 d3 by (simp add: from_dict_def bind_exn_def)
        next
          assume "\<exists>d. parse_timestamp codec ''last_refreshed'' d3 = Inr d \<and>
              (\<forall>k. fmlookup d k = None \<longleftrightarrow> fmlookup d3 k = None)"
          then obtain d4 where d4: "parse_timestamp codec ''last_refreshed'' d3 = Inr d4"
            and k4: "fmlookup d4 k = None" using k3 by blast
          have "OAuthCredential_init d4 = Inl TypeError"
            using assms(1) k4 by (rule init_missing)
          then show ?thesis using d1 d2 d3 d4 by (simp add: from_dict_def bind_exn_def)
        qed
      qed
    qed
  qed
qed

theorem from_dict_missing_field_raises_witness:
  "''created_at'' \<in> set required_fields \<and>
   fmlookup (fmupd ''name'' (TStr ''n'') fmempty) ''created_at'' = None \<and>
   from_dict unary_codec (fmupd ''name'' (TStr ''n'') fmempty) = Inl TypeError"
proof -
  have 1: "''created_at'' \<in> set required_fields"
    by (simp add: required_fields_def)
  have 2: "fmlookup (fmupd ''name'' (TStr ''n'') fmempty) ''created_at'' = None"
    by simp
  have "OAuthCredential_init (fmupd ''name'' (TStr ''n'') fmempty) = Inl TypeError"
    using 1 2 by (rule init_missing)
  then have 3: "from_dict unary_codec (fmupd ''name'' (TStr ''n'') fmempty) \<noteq> Inl ValueError"
    by (simp add: from_dict_def bind_exn_def parse_timestamp_def)
  from from_dict_missing_field_raises[OF 1 2, of unary_codec] 3 1 2 show ?thesis by blast
qed

text \<open>
  Claim C6 as worded (a structured error is returned, nothing is raised) fails on the
  empty mapping: \<open>from_dict\<close> raises \<open>TypeError\<close>. Its only normal result is a credential.
\<close>

theorem from_dict_raises_counterexample:
  "from_dict unary_codec fmempty = Inl TypeError"
  by (simp add: from_dict_def bind_exn_def parse_timestamp_def OAuthCredential_init_def
      required_fields_def)

subsection \<open>Storage: what \<open>save\<close> writes and what \<open>get\<close> reads\<close>

lemma fmlookup_toml_omit_none:
  "fmlookup (toml_omit_none d) k = (case fmlookup d k of Some (Some v) \<Rightarrow> Some v | _ \<Rightarrow> None)"
  by (simp add: toml_omit_none_def split: option.splits)


lemma run_write_back:
  "run_ops lib f (write_back job) =
     (case dumps lib job of None \<Rightarrow> Text [] | Some tx \<Rightarrow> Text tx)"
  by (simp add: run_ops_def write_back_def exec_op_def split: option.splits)

lemma save_True:
  assumes "save lib codec st c = (True, st')"
  shows "\<exists>job tx. save_document lib codec st c = Inr job \<and> dumps lib job = Some tx \<and>
           st' = st\<lparr>secrets_file := Text tx\<rparr>"
  using assms by (auto simp: save_def run_write_back split: sum.splits)




lemma save_keeps_collaborator:
  "snd (save lib codec st c) = st\<lparr>secrets_file := secrets_file (snd (save lib codec st c))\<rparr>"
  by (simp add: save_def split: sum.splits)

subsection \<open>Serialisation round trip\<close>

lemma isoformat_if_set_Inr:
  "isoformat_if_set codec ov = Inr x \<Longrightarrow> x = stamp_text codec ov"
  by (auto simp: isoformat_if_set_def stamp_text_def
      split: option.splits tval.splits if_splits)


lemma to_dict_Inr:
  assumes "to_dict codec c = Inr dict"
  shows "fmlookup dict k =
     (if k = ''metadata'' then Some (metadata c)
      else if k = ''last_refreshed'' then Some (stamp_text codec (last_refreshed c))
      else if k = ''last_used'' then Some (stamp_text codec (last_used c))
      else if k = ''expires_at'' then Some (stamp_text codec (expires_at c))
      else if k = ''created_at'' then Some (stamp_text codec (Some (created_at c)))
      else if k = ''credentials'' then Some (Some (credentials c))
      else if k = ''account_info'' then Some (Some (account_info c))
      else if k = ''identifier'' then Some (Some (identifier c))
      else if k = ''provider'' then Some (Some (provider c))
      else if k = ''name'' then Some (Some (name c))
      else None)"
proof -
  from assms obtain ca ea lu lr where
    1: "isoformat_if_set codec (Some (created_at c)) = Inr ca"
    and 2: "isoformat_if_set codec (expires_at c) = Inr ea"
    and 3: "isoformat_if_set codec (last_used c) = Inr lu"
    and 4: "isoformat_if_set codec (last_refreshed c) = Inr lr"
    and d: "dict = fmap_of_list
         [(''name'', Some (name c)),
          (''provider'', Some (provider c)),
          (''identifier'', Some (identifier c)),
          (''account_info'', Some (account_info c)),
          (''credentials'', Some (credentials c)),
          (''created_at'', ca),
          (''expires_at'', ea),
          (''last_used'', lu),
          (''last_refreshed'', lr),
          (''metadata'', metadata c)]"
    by (auto simp: to_dict_def bind_exn_def split: sum.splits)
  note e = isoformat_if_set_Inr[OF 1] isoformat_if_set_Inr[OF 2]
    isoformat_if_set_Inr[OF 3] isoformat_if_set_Inr[OF 4]
  show ?thesis unfolding d e by simp
qed







lemma prepare_cred_data_Inr:
  assumes "prepare_cred_data codec st c = Inr dict"
  shows "\<exists>dict0. to_dict codec c = Inr dict0 \<and>
           dict = (case token_storage st of
                     Some ts \<Rightarrow>
                       if use_encryption st
                       then fmupd ''credentials''
                              (Some (envelope (encrypt_token ts (credentials c)))) dict0
                       else dict0
                   | None \<Rightarrow> dict0)"
  using assms
  by (auto simp: prepare_cred_data_def bind_exn_def split: sum.splits option.splits if_splits)


subsection \<open>Claims about the storage engine\<close>







lemma save_document_Document:
  assumes j: "save_document lib codec st c = Inr job" and n: "name c = TStr n"
  shows "\<exists>loaded dict.
           (case secrets_file st of Absent \<Rightarrow> Inr fmempty | f \<Rightarrow> toml_load lib f) = Inr loaded \<and>
           prepare_cred_data codec st c = Inr dict \<and>
           job = Document
                   (fmupd ''oauth''
                      (TTable (fmupd n (TTable (toml_omit_none dict))
                         (case fmlookup loaded ''oauth'' of
                            Some (TTable sect) \<Rightarrow> sect
                          | _ \<Rightarrow> fmempty)))
                      loaded)"
proof -
  from j obtain loaded where
    l: "(case secrets_file st of Absent \<Rightarrow> Inr fmempty | f \<Rightarrow> toml_load lib f) = Inr loaded"
    by (auto simp: save_document_def bind_exn_def split: sum.splits)
  from j l obtain dict where p: "prepare_cred_data codec st c = Inr dict"
    by (auto simp: save_document_def bind_exn_def Let_def split: sum.splits)
  have "job = Document
                   (fmupd ''oauth''
                      (TTable (fmupd n (TTable (toml_omit_none dict))
                         (case fmlookup loaded ''oauth'' of
                            Some (TTable sect) \<Rightarrow> sect
                          | _ \<Rightarrow> fmempty)))
                      loaded)"
  proof (cases "''oauth'' |\<in>| fmdom loaded")
    case False
    then have "fmlookup loaded ''oauth'' = None" by (simp add: fmdom_notD)
    with j l p n False show ?thesis
      by (auto simp: save_document_def bind_exn_def Let_def)
  next
    case True
    with j l p obtain sect where s: "fmlookup loaded ''oauth'' = Some (TTable sect)"
      by (auto simp: save_document_def bind_exn_def Let_def split: option.splits tval.splits)
    with j l p n True show ?thesis
      by (auto simp: save_document_def bind_exn_def Let_def)
  qed
  with l p show ?thesis by blast
qed

lemma stamp_text_required:
  "stamp_text codec (Some v) =
     (case v of TDatetime t \<Rightarrow> Some (TStr (isoformat codec t)) | _ \<Rightarrow> Some v)"
  by (simp add: stamp_text_def split: tval.splits)

lemma stamp_text_optional:
  "stamp_text codec ov =
     (case ov of Some (TDatetime t) \<Rightarrow> Some (TStr (isoformat codec t)) | _ \<Rightarrow> ov)"
  by (simp add: stamp_text_def)

lemma table_differs:
  assumes "\<And>p. v = TTable p \<Longrightarrow> fmlookup p ''_data'' \<noteq> Some b"
  shows "TTable (fmap_of_list [(''_encrypted'', TBool True), (''_data'', b)]) \<noteq> v"
proof
  assume e: "TTable (fmap_of_list [(''_encrypted'', TBool True), (''_data'', b)]) = v"
  from assms[OF e[symmetric]] show False by simp
qed

text \<open>
  Claim C1. With encryption enabled, a \<open>save\<close> of a credential whose name is a string
  that succeeds leaves in the file the text that \<open>toml.dump\<close> gives for this document:
  the document that was read, its \<open>oauth\<close> section changed at the credential's name
  only, and there an entry with these keys and no other. \<open>credentials\<close> is the table of
  exactly two entries, \<open>_encrypted = true\<close> and \<open>_data\<close> the collaborator's blob for the
  payload, whatever the payload, empty or not; \<open>name\<close>, \<open>provider\<close>, \<open>identifier\<close>,
  \<open>account_info\<close> and \<open>metadata\<close> are the credential's fields; the four timestamps are the
  credential's, a datetime as its ISO text. So the payload goes to the file through the
  collaborator only. The value under \<open>credentials\<close> differs from the plaintext payload;
  the one thing asked of the collaborator for this is that its blob is not already the
  payload's own \<open>_data\<close> entry.
\<close>

theorem save_stores_envelope:
  assumes enc: "use_encryption st" and ts: "token_storage st = Some ts"
    and s: "save lib codec st c = (True, st')"
    and n: "name c = TStr n"
    and blob: "\<And>p. credentials c = TTable p \<Longrightarrow>
                 fmlookup p ''_data'' \<noteq> Some (encrypt_token ts (credentials c))"
  shows "\<exists>loaded e tx.
     (case secrets_file st of Absent \<Rightarrow> Inr fmempty | f \<Rightarrow> toml_load lib f) = Inr loaded \<and>
     dumps lib (Document
        (fmupd ''oauth''
           (TTable (fmupd n (TTable e)
              (case fmlookup loaded ''oauth'' of Some (TTable sect) \<Rightarrow> sect | _ \<Rightarrow> fmempty)))
           loaded)) = Some tx \<and>
     secrets_file st' = Text tx \<and>
     (\<forall>k. fmlookup e k =
        (if k = ''credentials'' then
           Some (TTable (fmap_of_list
             [(''_encrypted'', TBool True), (''_data'', encrypt_token ts (credentials c))]))
         else if k = ''name'' then Some (name c)
         else if k = ''provider'' then Some (provider c)
         else if k = ''identifier'' then Some (identifier c)
         else if k = ''account_info'' then Some (account_info c)
         else if k = ''created_at'' then
           (case created_at c of
              TDatetime t \<Rightarrow> Some (TStr (isoformat codec t)) | _ \<Rightarrow> Some (created_at c))
         else if k = ''expires_at'' then
           (case expires_at c of
              Some (TDatetime t) \<Rightarrow> Some (TStr (isoformat codec t)) | _ \<Rightarrow> expires_at c)
         else if k = ''last_used'' then
           (case last_used c of
              Some (TDatetime t) \<Rightarrow> Some (TStr (isoformat codec t)) | _ \<Rightarrow> last_used c)
         else if k = ''last_refreshed'' then
           (case last_refreshed c of
              Some (TDatetime t) \<Rightarrow> Some (TStr (isoformat codec t)) | _ \<Rightarrow> last_refreshed c)
         else if k = ''metadata'' then metadata c
         else None)) \<and>
     fmlookup e ''credentials'' \<noteq> Some (credentials c)"
proof -
  from save_True[OF s] obtain job tx where
    j: "save_document lib codec st c = Inr job" and t: "dumps lib job = Some tx"
    and st': "st' = st\<lparr>secrets_file := Text tx\<rparr>"
    by blast
  from save_document_Document[OF j n] obtain loaded dict where
    l: "(case secrets_file st of Absent \<Rightarrow> Inr fmempty | f \<Rightarrow> toml_load lib f) = Inr loaded"
    and p: "prepare_cred_data codec st c = Inr dict"
    and jd: "job = Document
                   (fmupd ''oauth''
                      (TTable (fmupd n (TTable (toml_omit_none dict))
                         (case fmlookup loaded ''oauth'' of
                            Some (TTable sect) \<Rightarrow> sect
                          | _ \<Rightarrow> fmempty)))
                      loaded)"
    by blast
  from prepare_cred_data_Inr[OF p] enc ts obtain dict0 where
    td: "to_dict codec c = Inr dict0"
    and dd: "dict = fmupd ''credentials''
                      (Some (envelope (encrypt_token ts (credentials c)))) dict0"
    by auto
  define e where "e = toml_omit_none dict"
  have look: "fmlookup e k =
        (if k = ''credentials'' then
           Some (TTable (fmap_of_list
             [(''_encrypted'', TBool True), (''_data'', encrypt_token ts (credentials c))]))
         else if k = ''name'' then Some (name c)
         else if k = ''provider'' then Some (provider c)
         else if k = ''identifier'' then Some (identifier c)
         else if k = ''account_info'' then Some (account_info c)
         else if k = ''created_at'' then
           (case created_at c of
              TDatetime t \<Rightarrow> Some (TStr (isoformat codec t)) | _ \<Rightarrow> Some (created_at c))
         else if k = ''expires_at'' then
           (case expires_at c of
              Some (TDatetime t) \<Rightarrow> Some (TStr (isoformat codec t)) | _ \<Rightarrow> expires_at c)
         else if k = ''last_used'' then
           (case last_used c of
              Some (TDatetime t) \<Rightarrow> Some (TStr (isoformat codec t)) | _ \<Rightarrow> last_used c)
         else if k = ''last_refreshed'' then
           (case last_refreshed c of
              Some (TDatetime t) \<Rightarrow> Some (TStr (isoformat codec t)) | _ \<Rightarrow> last_refreshed c)
         else if k = ''metadata'' then metadata c
         else None)" for k
    unfolding stamp_text_required[symmetric] stamp_text_optional[symmetric]
    by (simp add: e_def dd fmlookup_toml_omit_none to_dict_Inr[OF td] envelope_def
        split: option.split)
  have ne: "fmlookup e ''credentials'' \<noteq> Some (credentials c)"
    using table_differs[of "credentials c" "encrypt_token ts (credentials c)", OF blob]
    by (simp add: look)
  have f: "secrets_file st' = Text tx" by (simp add: st')
  from l t[unfolded jd, folded e_def] f look ne show ?thesis by blast
qed

theorem save_stores_envelope_witness:
  "use_encryption encrypted_store \<and> token_storage encrypted_store = Some wrap_storage \<and>
   fst (save shelf_toml unary_codec encrypted_store cred_alice) = True \<and>
   name cred_alice = TStr ''google_alice_example_com'' \<and>
   (\<exists>loaded e tx.
      toml_load shelf_toml (secrets_file encrypted_store) = Inr loaded \<and>
      dumps shelf_toml (Document
        (fmupd ''oauth''
           (TTable (fmupd ''google_alice_example_com'' (TTable e)
              (case fmlookup loaded ''oauth'' of Some (TTable sect) \<Rightarrow> sect | _ \<Rightarrow> fmempty)))
           loaded)) = Some tx \<and>
      secrets_file (snd (save shelf_toml unary_codec encrypted_store cred_alice)) = Text tx \<and>
      fmlookup e ''credentials'' =
        Some (TTable (fmap_of_list
          [(''_encrypted'', TBool True),
           (''_data'', TTable (fmupd ''ct'' (credentials cred_alice) fmempty))])) \<and>
      fmlookup e ''created_at'' = Some (TStr ''xxx'') \<and>
      fmlookup e ''refresh_token'' = None \<and>
      fmlookup e ''credentials'' \<noteq> Some (credentials cred_alice))"
proof -
  have 1: "use_encryption encrypted_store"
    and 2: "token_storage encrypted_store = Some wrap_storage"
    and f: "secrets_file encrypted_store = Text ''sources''"
    by (simp_all add: encrypted_store_def OAuthStorage_init_def)
  have t: "fst (save shelf_toml unary_codec encrypted_store cred_alice) = True"
    by code_simp
  then have 3: "save shelf_toml unary_codec encrypted_store cred_alice =
      (True, snd (save shelf_toml unary_codec encrypted_store cred_alice))"
    by (simp add: prod_eq_iff)
  have 4: "name cred_alice = TStr ''google_alice_example_com''"
    by (simp add: cred_alice_def)
  have 5: "fmlookup p ''_data'' \<noteq> Some (encrypt_token wrap_storage (credentials cred_alice))"
    if "credentials cred_alice = TTable p" for p
    using that by (auto simp: cred_alice_def)
  have 6: "encrypt_token wrap_storage (credentials cred_alice)
             = TTable (fmupd ''ct'' (credentials cred_alice) fmempty)"
    by (simp add: wrap_storage_def)
  have 7: "created_at cred_alice = TDatetime 3" "isoformat unary_codec 3 = ''xxx''"
    by (simp_all add: cred_alice_def unary_codec_def numeral_3_eq_3)
  from save_stores_envelope[OF 1 2 3 4 5] obtain loaded e tx where
    a: "(case secrets_file encrypted_store of Absent \<Rightarrow> Inr fmempty
         | f \<Rightarrow> toml_load shelf_toml f) = Inr loaded"
    and b: "dumps shelf_toml (Document
        (fmupd ''oauth''
           (TTable (fmupd ''google_alice_example_com'' (TTable e)
              (case fmlookup loaded ''oauth'' of Some (TTable sect) \<Rightarrow> sect | _ \<Rightarrow> fmempty)))
           loaded)) = Some tx"
    and c: "secrets_file (snd (save shelf_toml unary_codec encrypted_store cred_alice)) = Text tx"
    and d: "\<And>k. fmlookup e k =
        (if k = ''credentials'' then
           Some (TTable (fmap_of_list
             [(''_encrypted'', TBool True),
              (''_data'', encrypt_token wrap_storage (credentials cred_alice))]))
         else if k = ''name'' then Some (name cred_alice)
         else if k = ''provider'' then Some (provider cred_alice)
         else if k = ''identifier'' then Some (identifier cred_alice)
         else if k = ''account_info'' then Some (account_info cred_alice)
         else if k = ''created_at'' then
           (case created_at cred_alice of
              TDatetime t \<Rightarrow> Some (TStr (isoformat unary_codec t))
            | _ \<Rightarrow> Some (created_at cred_alice))
         else if k = ''expires_at'' then
           (case expires_at cred_alice of
              Some (TDatetime t) \<Rightarrow> Some (TStr (isoformat unary_codec t))
            | _ \<Rightarrow> expires_at cred_alice)
         else if k = ''last_used'' then
           (case last_used cred_alice of
              Some (TDatetime t) \<Rightarrow> Some (TStr (isoformat unary_codec t))
            | _ \<Rightarrow> last_used cred_alice)
         else if k = ''last_refreshed'' then
           (case last_refreshed cred_alice of
              Some (TDatetime t) \<Rightarrow> Some (TStr (isoformat unary_codec t))
            | _ \<Rightarrow> last_refreshed cred_alice)
         else if k = ''metadata'' then metadata cred_alice
         else None)"
    and e: "fmlookup e ''credentials'' \<noteq> Some (credentials cred_alice)"
    by blast
  from a have a': "toml_load shelf_toml (secrets_file encrypted_store) = Inr loaded"
    by (simp add: f)
  have d1: "fmlookup e ''credentials'' =
        Some (TTable (fmap_of_list
          [(''_encrypted'', TBool True),
           (''_data'', TTable (fmupd ''ct'' (credentials cred_alice) fmempty))]))"
    unfolding d 6 by simp
  have d2: "fmlookup e ''created_at'' = Some (TStr ''xxx'')"
    unfolding d by (simp add: 7)
  have d3: "fmlookup e ''refresh_token'' = None"
    unfolding d by simp
  from 1 2 t 4 a' b c d1 d2 d3 e show ?thesis by blast
qed

text \<open>
  The assumption on the collaborator cannot be dropped: a collaborator that answers
  every payload with the blob \<open>x\<close>, which encrypts nothing, maps the payload
  \<open>{_encrypted: true, _data: x}\<close> to an envelope equal to it.
\<close>

lemma envelope_of_constant_blob:
  "envelope (encrypt_token const_storage
      (TTable (fmap_of_list [(''_encrypted'', TBool True), (''_data'', TStr ''x'')])))
   = TTable (fmap_of_list [(''_encrypted'', TBool True), (''_data'', TStr ''x'')])"
  by (simp add: envelope_def const_storage_def)

subsection \<open>Writing the document back\<close>

lemma save_steps:
  assumes j: "save_document lib codec st c = Inr job"
  shows "save_crashed 0 lib codec st c = st"
    and "save_crashed 1 lib codec st c = st\<lparr>secrets_file := Text []\<rparr>"
    and "dumps lib job = Some tx \<Longrightarrow>
           save lib codec st c = (True, st\<lparr>secrets_file := Text tx\<rparr>)"
    and "dumps lib job = Some tx \<Longrightarrow>
           save_crashed 2 lib codec st c = st\<lparr>secrets_file := Text tx\<rparr>"
    and "dumps lib job = None \<Longrightarrow>
           save lib codec st c = (False, st\<lparr>secrets_file := Text []\<rparr>)"
    and "dumps lib job = None \<Longrightarrow>
           save_crashed 2 lib codec st c = st\<lparr>secrets_file := Text []\<rparr>"
proof -
  show "save_crashed 0 lib codec st c = st"
    by (simp add: save_crashed_def j run_ops_def)
  show "save_crashed 1 lib codec st c = st\<lparr>secrets_file := Text []\<rparr>"
    by (simp add: save_crashed_def j run_ops_def write_back_def exec_op_def)
  show "save lib codec st c = (True, st\<lparr>secrets_file := Text tx\<rparr>)"
    if "dumps lib job = Some tx"
    using that by (simp add: save_def j run_write_back)
  show "save_crashed 2 lib codec st c = st\<lparr>secrets_file := Text tx\<rparr>"
    if "dumps lib job = Some tx"
    using that by (simp add: save_crashed_def j run_ops_def write_back_def exec_op_def)
  show "save lib codec st c = (False, st\<lparr>secrets_file := Text []\<rparr>)"
    if "dumps lib job = None"
    using that by (simp add: save_def j run_write_back)
  show "save_crashed 2 lib codec st c = st\<lparr>secrets_file := Text []\<rparr>"
    if "dumps lib job = None"
    using that by (simp add: save_crashed_def j run_ops_def write_back_def exec_op_def)
qed

lemma delete_steps:
  assumes d: "delete_document lib st n = Some d"
  shows "delete_crashed 0 lib st n = st"
    and "delete_crashed 1 lib st n = st\<lparr>secrets_file := Text []\<rparr>"
    and "dumps lib (Document d) = Some tx \<Longrightarrow>
           delete lib st n = (True, st\<lparr>secrets_file := Text tx\<rparr>)"
    and "dumps lib (Document d) = Some tx \<Longrightarrow>
           delete_crashed 2 lib st n = st\<lparr>secrets_file := Text tx\<rparr>"
    and "dumps lib (Document d) = None \<Longrightarrow>
           delete lib st n = (False, st\<lparr>secrets_file := Text []\<rparr>)"
    and "dumps lib (Document d) = None \<Longrightarrow>
           delete_crashed 2 lib st n = st\<lparr>secrets_file := Text []\<rparr>"
proof -
  show "delete_crashed 0 lib st n = st"
    by (simp add: delete_crashed_def d run_ops_def)
  show "delete_crashed 1 lib st n = st\<lparr>secrets_file := Text []\<rparr>"
    by (simp add: delete_crashed_def d run_ops_def write_back_def exec_op_def)
  show "delete lib st n = (True, st\<lparr>secrets_file := Text tx\<rparr>)"
    if "dumps lib (Document d) = Some tx"
    using that by (simp add: delete_def d run_write_back)
  show "delete_crashed 2 lib st n = st\<lparr>secrets_file := Text tx\<rparr>"
    if "dumps lib (Document d) = Some tx"
    using that by (simp add: delete_crashed_def d run_ops_def write_back_def exec_op_def)
  show "delete lib st n = (False, st\<lparr>secrets_file := Text []\<rparr>)"
    if "dumps lib (Document d) = None"
    using that by (simp add: delete_def d run_write_back)
  show "delete_crashed 2 lib st n = st\<lparr>secrets_file := Text []\<rparr>"
    if "dumps lib (Document d) = None"
    using that by (simp add: delete_crashed_def d run_ops_def write_back_def exec_op_def)
qed

text \<open>
  Claim C7, as amended. \<open>save\<close> and \<open>delete\<close> write the document back in place: the file
  is opened for writing, which empties it, and the document is then written into it.
  There is no temporary file and no replace. A write that completes leaves the text of
  the new document; a process that stops between the two operations leaves the empty
  file, and one that stops before them leaves the file as it was. When \<open>toml.dump\<close>
  raises, the file has been emptied already and stays empty, and the operation returns
  \<open>False\<close>.
\<close>

theorem write_back_in_place:
  "(save_document lib codec st c = Inr job \<longrightarrow>
      save_crashed 0 lib codec st c = st \<and>
      save_crashed 1 lib codec st c = st\<lparr>secrets_file := Text []\<rparr> \<and>
      (case dumps lib job of
         Some tx \<Rightarrow>
           save lib codec st c = (True, st\<lparr>secrets_file := Text tx\<rparr>) \<and>
           save_crashed 2 lib codec st c = st\<lparr>secrets_file := Text tx\<rparr>
       | None \<Rightarrow>
           save lib codec st c = (False, st\<lparr>secrets_file := Text []\<rparr>) \<and>
           save_crashed 2 lib codec st c = st\<lparr>secrets_file := Text []\<rparr>)) \<and>
   (delete_document lib st n = Some d' \<longrightarrow>
      delete_crashed 0 lib st n = st \<and>
      delete_crashed 1 lib st n = st\<lparr>secrets_file := Text []\<rparr> \<and>
      (case dumps lib (Document d') of
         Some tx \<Rightarrow>
           delete lib st n = (True, st\<lparr>secrets_file := Text tx\<rparr>) \<and>
           delete_crashed 2 lib st n = st\<lparr>secrets_file := Text tx\<rparr>
       | None \<Rightarrow>
           delete lib st n = (False, st\<lparr>secrets_file := Text []\<rparr>) \<and>
           delete_crashed 2 lib st n = st\<lparr>secrets_file := Text []\<rparr>))"
proof (intro conjI impI)
  assume j: "save_document lib codec st c = Inr job"
  from save_steps(1,2)[OF j]
  show "save_crashed 0 lib codec st c = st"
    and "save_crashed 1 lib codec st c = st\<lparr>secrets_file := Text []\<rparr>"
    by blast+
  show "case dumps lib job of
         Some tx \<Rightarrow>
           save lib codec st c = (True, st\<lparr>secrets_file := Text tx\<rparr>) \<and>
           save_crashed 2 lib codec st c = st\<lparr>secrets_file := Text tx\<rparr>
       | None \<Rightarrow>
           save lib codec st c = (False, st\<lparr>secrets_file := Text []\<rparr>) \<and>
           save_crashed 2 lib codec st c = st\<lparr>secrets_file := Text []\<rparr>"
  proof (cases "dumps lib job")
    case None
    with save_steps(5,6)[OF j None] show ?thesis by simp
  next
    case (Some tx)
    with save_steps(3,4)[OF j Some] show ?thesis by simp
  qed
next
  assume d: "delete_document lib st n = Some d'"
  from delete_steps(1,2)[OF d]
  show "delete_crashed 0 lib st n = st"
    and "delete_crashed 1 lib st n = st\<lparr>secrets_file := Text []\<rparr>"
    by blast+
  show "case dumps lib (Document d') of
         Some tx \<Rightarrow>
           delete lib st n = (True, st\<lparr>secrets_file := Text tx\<rparr>) \<and>
           delete_crashed 2 lib st n = st\<lparr>secrets_file := Text tx\<rparr>
       | None \<Rightarrow>
           delete lib st n = (False, st\<lparr>secrets_file := Text []\<rparr>) \<and>
           delete_crashed 2 lib st n = st\<lparr>secrets_file := Text []\<rparr>"
  proof (cases "dumps lib (Document d')")
    case None
    with delete_steps(5,6)[OF d None] show ?thesis by simp
  next
    case (Some tx)
    with delete_steps(3,4)[OF d Some] show ?thesis by simp
  qed
qed

theorem write_back_in_place_witness:
  "save_document shelf_toml unary_codec alice_store cred_alice = Inr (Document alice_doc) \<and>
   delete_document shelf_toml alice_store ''google_alice_example_com'' = Some sources_doc \<and>
   dumps shelf_toml (Document alice_doc) = Some ''alice'' \<and>
   dumps shelf_toml (Document sources_doc) = Some ''sources'' \<and>
   save_crashed 1 shelf_toml unary_codec alice_store cred_alice
     = alice_store\<lparr>secrets_file := Text []\<rparr> \<and>
   save shelf_toml unary_codec alice_store cred_alice
     = (True, alice_store\<lparr>secrets_file := Text ''alice''\<rparr>) \<and>
   delete_crashed 1 shelf_toml alice_store ''google_alice_example_com''
     = alice_store\<lparr>secrets_file := Text []\<rparr> \<and>
   delete shelf_toml alice_store ''google_alice_example_com''
     = (True, alice_store\<lparr>secrets_file := Text ''sources''\<rparr>)"
proof -
  have 1: "save_document shelf_toml unary_codec alice_store cred_alice
             = Inr (Document alice_doc)"
    by code_simp
  have 2: "delete_document shelf_toml alice_store ''google_alice_example_com''
             = Some sources_doc"
    by code_simp
  have 3: "dumps shelf_toml (Document alice_doc) = Some ''alice''" by code_simp
  have 4: "dumps shelf_toml (Document sources_doc) = Some ''sources''" by code_simp
  from write_back_in_place[of shelf_toml unary_codec alice_store cred_alice
      "Document alice_doc" "''google_alice_example_com''" sources_doc] 1 2 3 4
  show ?thesis by simp
qed

text \<open>
  Claim C7 as worded fails: when the process stops after the file has been opened for
  writing, the file is empty. It is neither the text that was there, which held the
  section of another subsystem, nor the text that \<open>save\<close> was writing, and \<open>toml.load\<close>
  finds in it neither document.
\<close>

theorem save_crash_counterexample:
  "secrets_file encrypted_store = Text ''sources'' \<and>
   toml_load shelf_toml (secrets_file encrypted_store) = Inr sources_doc \<and>
   secrets_file (snd (save shelf_toml unary_codec encrypted_store cred_alice)) = Text ''alice'' \<and>
   toml_load shelf_toml (secrets_file (snd (save shelf_toml unary_codec encrypted_store cred_alice)))
     = Inr alice_doc \<and>
   secrets_file (save_crashed 1 shelf_toml unary_codec encrypted_store cred_alice) = Text [] \<and>
   toml_load shelf_toml (secrets_file (save_crashed 1 shelf_toml unary_codec encrypted_store cred_alice))
     = Inr fmempty \<and>
   sources_doc \<noteq> fmempty \<and> alice_doc \<noteq> fmempty"
  by code_simp

subsection \<open>The frame of \<open>update_last_used\<close>\<close>
















subsection \<open>The authorization-code flow\<close>

text \<open>
  Claim C3. Whenever the state that comes back from the redirect differs from the nonce
  that the flow issued, \<open>authenticate\<close> returns \<open>False\<close>, and its run holds no request to
  the token endpoint and no saving of credentials. If the run got as far as the redirect,
  it ends on the report of the invalid state: that message is how the code tells this
  failure from the others, its result being a plain boolean.
\<close>

theorem state_mismatch_is_hard_failure:
  assumes "start_oauth_flow io = Some resp"
    and "fmlookup resp ''state'' = Some s"
    and "s \<noteq> generate_state io"
  shows "fst (GoogleOAuthProvider_authenticate io service) = False \<and>
         \<not> list_ex is_token_request (snd (GoogleOAuthProvider_authenticate io service)) \<and>
         \<not> list_ex is_save (snd (GoogleOAuthProvider_authenticate io service)) \<and>
         (list_ex is_flow_start (snd (GoogleOAuthProvider_authenticate io service)) \<longrightarrow>
            last (snd (GoogleOAuthProvider_authenticate io service)) = Print InvalidState)"
proof -
  from assms(2) have ne: "resp \<noteq> fmempty" by auto
  from assms(2,3) have st: "fmlookup resp ''state'' \<noteq> Some (generate_state io)" by simp
  show ?thesis
  proof (cases "confirm_open io")
    case Interrupt
    then show ?thesis by (simp add: GoogleOAuthProvider_authenticate_def)
  next
    case (Answer opn)
    show ?thesis
    proof (cases "ask_client_id io")
      case Interrupt
      with Answer show ?thesis
        by (simp add: GoogleOAuthProvider_authenticate_def ask_def)
    next
      case cid: (Answer a)
      show ?thesis
      proof (cases "ask_client_secret io")
        case Interrupt
        with Answer cid show ?thesis
          by (simp add: GoogleOAuthProvider_authenticate_def ask_def)
      next
        case cs: (Answer b)
        show ?thesis
        proof (cases "strip a = [] \<or> strip b = []")
          case True
          with Answer cid cs show ?thesis
            by (auto simp: GoogleOAuthProvider_authenticate_def ask_def)
        next
          case False
          with Answer cid cs assms(1) ne st show ?thesis
            by (simp add: GoogleOAuthProvider_authenticate_def ask_def Let_def)
        qed
      qed
    qed
  qed
qed

theorem state_mismatch_is_hard_failure_witness:
  "start_oauth_flow forged_io = Some (fmap_of_list [(''code'', ''c0de''), (''state'', ''other'')]) \<and>
   fmlookup (fmap_of_list [(''code'', ''c0de''), (''state'', ''other'')]) ''state'' = Some ''other'' \<and>
   ''other'' \<noteq> generate_state forged_io \<and>
   fst (GoogleOAuthProvider_authenticate forged_io ''google_ads'') = False \<and>
   \<not> list_ex is_token_request (snd (GoogleOAuthProvider_authenticate forged_io ''google_ads'')) \<and>
   list_ex is_flow_start (snd (GoogleOAuthProvider_authenticate forged_io ''google_ads'')) \<and>
   last (snd (GoogleOAuthProvider_authenticate forged_io ''google_ads'')) = Print InvalidState"
proof -
  have 1: "start_oauth_flow forged_io
             = Some (fmap_of_list [(''code'', ''c0de''), (''state'', ''other'')])"
    by (simp add: forged_io_def)
  have 2: "fmlookup (fmap_of_list [(''code'', ''c0de''), (''state'', ''other'')]) ''state''
             = Some ''other''"
    by simp
  have 3: "''other'' \<noteq> generate_state forged_io"
    by (simp add: forged_io_def happy_io_def)
  have 4: "list_ex is_flow_start (snd (GoogleOAuthProvider_authenticate forged_io ''google_ads''))"
    by (simp add: GoogleOAuthProvider_authenticate_def ask_def Let_def forged_io_def happy_io_def
        strip_def is_space_def)
  from state_mismatch_is_hard_failure[OF 1 2 3, of "''google_ads''"] 1 2 3 4
  show ?thesis by blast
qed

text \<open>
  Claim C4. Whenever the token endpoint answers with a JSON object that has no
  \<open>refresh_token\<close> (an \<open>access_token\<close> or not), \<open>authenticate\<close> returns \<open>False\<close> and its
  run holds no saving of credentials. If the run got as far as the request, it reports
  the missing refresh token and ends on "token exchange failed".
\<close>

theorem no_refresh_token_is_failure:
  assumes "post_token io = Json tokens"
    and "''refresh_token'' |\<notin>| fmdom tokens"
  shows "fst (GoogleOAuthProvider_authenticate io service) = False \<and>
         \<not> list_ex is_save (snd (GoogleOAuthProvider_authenticate io service)) \<and>
         (list_ex is_token_request (snd (GoogleOAuthProvider_authenticate io service)) \<longrightarrow>
            Print NoRefreshToken \<in> set (snd (GoogleOAuthProvider_authenticate io service)) \<and>
            last (snd (GoogleOAuthProvider_authenticate io service)) = Print TokenExchangeFailed)"
proof -
  have ex: "\<And>code cid cs. exchange_code_for_tokens io code cid cs =
      (None, [HttpPost TOKEN_URL
         [(''code'', code), (''client_id'', cid), (''client_secret'', cs),
          (''redirect_uri'', callback_url io), (''grant_type'', ''authorization_code'')],
        Print NoRefreshToken])"
    using assms by (simp add: exchange_code_for_tokens_def Let_def)
  show ?thesis
  proof (cases "confirm_open io")
    case Interrupt
    then show ?thesis by (simp add: GoogleOAuthProvider_authenticate_def)
  next
    case (Answer opn)
    show ?thesis
    proof (cases "ask_client_id io")
      case Interrupt
      with Answer show ?thesis
        by (simp add: GoogleOAuthProvider_authenticate_def ask_def)
    next
      case cid: (Answer a)
      show ?thesis
      proof (cases "ask_client_secret io")
        case Interrupt
        with Answer cid show ?thesis
          by (simp add: GoogleOAuthProvider_authenticate_def ask_def)
      next
        case cs: (Answer b)
        show ?thesis
        proof (cases "strip a = [] \<or> strip b = []")
          case True
          with Answer cid cs show ?thesis
            by (auto simp: GoogleOAuthProvider_authenticate_def ask_def)
        next
          case False
          with Answer cid cs show ?thesis
            by (simp add: GoogleOAuthProvider_authenticate_def ask_def Let_def ex
                split: option.splits)
        qed
      qed
    qed
  qed
qed

theorem no_refresh_token_is_failure_witness:
  "post_token no_refresh_io = Json (fmap_of_list [(''access_token'', TStr ''at'')]) \<and>
   ''refresh_token'' |\<notin>| fmdom (fmap_of_list [(''access_token'', TStr ''at'')]) \<and>
   fst (GoogleOAuthProvider_authenticate no_refresh_io ''google_ads'') = False \<and>
   \<not> list_ex is_save (snd (GoogleOAuthProvider_authenticate no_refresh_io ''google_ads'')) \<and>
   list_ex is_token_request (snd (GoogleOAuthProvider_authenticate no_refresh_io ''google_ads'')) \<and>
   Print NoRefreshToken \<in> set (snd (GoogleOAuthProvider_authenticate no_refresh_io ''google_ads''))"
proof -
  have 1: "post_token no_refresh_io = Json (fmap_of_list [(''access_token'', TStr ''at'')])"
    by (simp add: no_refresh_io_def)
  have 2: "''refresh_token'' |\<notin>| fmdom (fmap_of_list [(''access_token'', TStr ''at'')])"
    by simp
  have 3: "list_ex is_token_request
             (snd (GoogleOAuthProvider_authenticate no_refresh_io ''google_ads''))"
    by (simp add: GoogleOAuthProvider_authenticate_def ask_def Let_def no_refresh_io_def
        happy_io_def strip_def is_space_def exchange_code_for_tokens_def)
  from no_refresh_token_is_failure[OF 1 2, of "''google_ads''"] 1 2 3
  show ?thesis by blast
qed

subsection \<open>The token-exchange flow\<close>

lemma exchange_token_Some:
  assumes "exchange_token io short app_id app_secret = (Some long_token, te)"
  shows "te = [HttpGet TOKEN_EXCHANGE_URL
                 [(''grant_type'', ''fb_exchange_token''), (''client_id'', app_id),
                  (''client_secret'', app_secret), (''fb_exchange_token'', short)],
               Print LongTokenObtained] \<and>
         truthy long_token \<and>
         (\<exists>data. get_exchange io = Json data \<and> fmlookup data ''access_token'' = Some long_token)"
  using assms
  by (auto simp: exchange_token_def Let_def
      split: http_response.splits option.splits if_splits)

text \<open>
  Claim C8, as amended. When the Facebook flow succeeds, it has handed to the manager,
  for \<open>facebook_ads\<close>, the payload \<open>{access_token, account_id}\<close>, where the access token
  is the one the exchange endpoint returned, and it ends by telling the user the expiry
  date \<open>now + 60 days\<close>. The payload has no \<open>expires_at\<close> entry: the date is computed
  for that message only.
\<close>

theorem facebook_success:
  assumes ok: "fst (FacebookOAuthProvider_authenticate io) = True"
  shows "\<exists>data long_token account_id pre.
           get_exchange io = Json data \<and>
           fmlookup data ''access_token'' = Some long_token \<and>
           ask_account_id io = Answer account_id \<and>
           snd (FacebookOAuthProvider_authenticate io) =
             pre @ [SaveOAuthCredentials ''facebook_ads''
                      (fmap_of_list [(''access_token'', long_token),
                                     (''account_id'', TStr (strip account_id))]) None,
                    Print (AuthComplete ''facebook_ads''),
                    Print (TokenExpiresOn (clock_now io + 60 * 86400000000))] \<and>
           \<not> list_ex is_save pre \<and>
           fmlookup (fmap_of_list [(''access_token'', long_token),
                                   (''account_id'', TStr (strip account_id))]) ''expires_at''
             = None"
proof -
  from ok obtain opn where c: "confirm_open io = Answer opn"
    by (cases "confirm_open io") (simp_all add: FacebookOAuthProvider_authenticate_def)
  from ok c obtain st where s: "ask_short_token io = Answer st"
    by (cases "ask_short_token io")
       (simp_all add: FacebookOAuthProvider_authenticate_def ask_def)
  from ok c s have sn: "strip st \<noteq> []"
    by (auto simp: FacebookOAuthProvider_authenticate_def ask_def)
  from ok c s sn obtain ai where a: "ask_app_id io = Answer ai"
    by (cases "ask_app_id io")
       (simp_all add: FacebookOAuthProvider_authenticate_def ask_def)
  from ok c s sn a obtain as where b: "ask_app_secret io = Answer as"
    by (cases "ask_app_secret io")
       (simp_all add: FacebookOAuthProvider_authenticate_def ask_def)
  from ok c s sn a b have an: "\<not> (strip ai = [] \<or> strip as = [])"
    by (auto simp: FacebookOAuthProvider_authenticate_def ask_def)
  obtain r te where e: "exchange_token io (strip st) (strip ai) (strip as) = (r, te)"
    by (cases "exchange_token io (strip st) (strip ai) (strip as)") blast
  from ok c s sn a b an e obtain long_token where r: "r = Some long_token"
    by (cases r) (auto simp: FacebookOAuthProvider_authenticate_def ask_def Let_def)
  from exchange_token_Some[OF e[unfolded r]] obtain data where
    te: "te = [HttpGet TOKEN_EXCHANGE_URL
                 [(''grant_type'', ''fb_exchange_token''), (''client_id'', strip ai),
                  (''client_secret'', strip as), (''fb_exchange_token'', strip st)],
               Print LongTokenObtained]"
    and tr: "truthy long_token"
    and d: "get_exchange io = Json data"
    and l: "fmlookup data ''access_token'' = Some long_token"
    by blast
  from ok c s sn a b an e r tr obtain acct where q: "ask_account_id io = Answer acct"
    by (cases "ask_account_id io")
       (auto simp: FacebookOAuthProvider_authenticate_def ask_def Let_def)
  define pre where "pre = (if opn then [OpenBrowser ''https://developers.facebook.com/tools/explorer/'']
                           else []) @ [Print Exchanging] @ te"
  have t: "snd (FacebookOAuthProvider_authenticate io) =
             pre @ [SaveOAuthCredentials ''facebook_ads''
                      (fmap_of_list [(''access_token'', long_token),
                                     (''account_id'', TStr (strip acct))]) None,
                    Print (AuthComplete ''facebook_ads''),
                    Print (TokenExpiresOn (clock_now io + 60 * 86400000000))]"
    using c s sn a b an e r tr q
    by (simp add: FacebookOAuthProvider_authenticate_def ask_def Let_def pre_def)
  have n: "\<not> list_ex is_save pre"
    by (simp add: pre_def te)
  have x: "fmlookup (fmap_of_list [(''access_token'', long_token),
                                   (''account_id'', TStr (strip acct))]) ''expires_at'' = None"
    by simp
  from d l q t n x show ?thesis by blast
qed

theorem facebook_success_witness:
  "fst (FacebookOAuthProvider_authenticate happy_io) = True \<and>
   (\<exists>pre. snd (FacebookOAuthProvider_authenticate happy_io) =
      pre @ [SaveOAuthCredentials ''facebook_ads''
               (fmap_of_list [(''access_token'', TStr ''long''),
                              (''account_id'', TStr ''act_1'')]) None,
             Print (AuthComplete ''facebook_ads''),
             Print (TokenExpiresOn (1000 + 60 * 86400000000))])"
proof -
  have 1: "fst (FacebookOAuthProvider_authenticate happy_io) = True"
    by (simp add: FacebookOAuthProvider_authenticate_def ask_def Let_def happy_io_def
        strip_def is_space_def exchange_token_def)
  have 2: "get_exchange happy_io = Json (fmap_of_list [(''access_token'', TStr ''long'')])"
    and 3: "ask_account_id happy_io = Answer ''act_1''"
    and 4: "clock_now happy_io = 1000"
    by (simp_all add: happy_io_def)
  have 5: "strip ''act_1'' = ''act_1''"
    by (simp add: strip_def is_space_def)
  from facebook_success[OF 1] show ?thesis
    unfolding 2 3 4 using 1 5 by auto
qed

text \<open>
  Claim C8 as worded fails on a run in which everything succeeds: the credential that
  the flow produces is the payload below, and it has no \<open>expires_at\<close>.
\<close>

theorem facebook_no_expires_at_counterexample:
  "FacebookOAuthProvider_authenticate happy_io =
     (True,
      [Print Exchanging,
       HttpGet TOKEN_EXCHANGE_URL
         [(''grant_type'', ''fb_exchange_token''), (''client_id'', ''app''),
          (''client_secret'', ''appsecret''), (''fb_exchange_token'', ''short'')],
       Print LongTokenObtained,
       SaveOAuthCredentials ''facebook_ads''
         (fmap_of_list [(''access_token'', TStr ''long''), (''account_id'', TStr ''act_1'')])
         None,
       Print (AuthComplete ''facebook_ads''),
       Print (TokenExpiresOn 5184000001000)]) \<and>
   fmlookup (fmap_of_list [(''access_token'', TStr ''long''), (''account_id'', TStr ''act_1'')])
     ''expires_at'' = None"
  by (simp add: FacebookOAuthProvider_authenticate_def ask_def Let_def happy_io_def
      strip_def is_space_def exchange_token_def)

end
